theory Spec2Isabelle
  imports Complex_Main "HOL-Library.Word"
begin

section \<open>Machine types\<close>

text \<open>
  Bytes of a file are \<open>8 word\<close>s. A \<^verbatim>\<open>float\<close> that is only stored, copied or written to
  a file is its 32-bit pattern; an \<^verbatim>\<open>int64_t\<close> is a \<open>64 word\<close> read with \<open>sint\<close>.
\<close>

type_synonym byte = "8 word"
type_synonym u32 = "32 word"
type_synonym u64 = "64 word"
type_synonym i64 = "64 word"
type_synonym f32 = "32 word"

section \<open>Binary32 arithmetic\<close>

text \<open>
  The logits and the penalty are C++ \<^verbatim>\<open>float\<close>s: IEEE 754 binary32 values, here their bit
  patterns. \<open>f32_mul\<close> and \<open>f32_div\<close> are the multiplication and division of the
  hardware: the exact product or quotient rounded to the nearest binary32 value, ties to
  even, with subnormal results, overflow to an infinity, signed zeros and the special
  cases of infinities and zeros. A NaN result is the default quiet NaN (payloads are not
  tracked). \<open>f32_round s m e sticky\<close> rounds the magnitude \<open>(m + \<epsilon>) \<cdot> 2\<^sup>e\<close>, where
  \<open>0 \<le> \<epsilon> < 1\<close> and \<open>\<epsilon> > 0\<close> exactly when \<open>sticky\<close> holds. \<open>f32_lt_zero\<close> is the
  comparison \<^verbatim>\<open>x < 0\<close> and \<open>f32_eq_one\<close> the comparison \<^verbatim>\<open>x == 1.0f\<close>.
\<close>

fun bitlen :: "nat \<Rightarrow> nat" where
  "bitlen n = (if n = 0 then 0 else Suc (bitlen (n div 2)))"

declare bitlen.simps [simp del]

definition f32_sign :: "f32 \<Rightarrow> bool" where
  "f32_sign w = (2 ^ 31 \<le> unat w)"

definition f32_expo :: "f32 \<Rightarrow> nat" where
  "f32_expo w = (unat w div 2 ^ 23) mod 256"

definition f32_frac :: "f32 \<Rightarrow> nat" where
  "f32_frac w = unat w mod 2 ^ 23"

definition f32_is_nan :: "f32 \<Rightarrow> bool" where
  "f32_is_nan w = (f32_expo w = 255 \<and> f32_frac w \<noteq> 0)"

definition f32_is_inf :: "f32 \<Rightarrow> bool" where
  "f32_is_inf w = (f32_expo w = 255 \<and> f32_frac w = 0)"

definition f32_is_zero :: "f32 \<Rightarrow> bool" where
  "f32_is_zero w = (f32_expo w = 0 \<and> f32_frac w = 0)"

definition f32_mant :: "f32 \<Rightarrow> nat" where
  "f32_mant w = (if f32_expo w = 0 then f32_frac w else 2 ^ 23 + f32_frac w)"

definition f32_exp2 :: "f32 \<Rightarrow> int" where
  "f32_exp2 w = (if f32_expo w = 0 then - 149 else int (f32_expo w) - 150)"

definition f32_signed :: "bool \<Rightarrow> nat \<Rightarrow> f32" where
  "f32_signed s bits = of_nat ((if s then 2 ^ 31 else 0) + bits)"

definition f32_nan :: f32 where "f32_nan = 0x7FC00000"

definition f32_infinity :: "bool \<Rightarrow> f32" where
  "f32_infinity s = f32_signed s (255 * 2 ^ 23)"

definition f32_round :: "bool \<Rightarrow> nat \<Rightarrow> int \<Rightarrow> bool \<Rightarrow> f32" where
  "f32_round s m e sticky =
     (if m = 0 then f32_signed s 0
      else
      let q = max (int (bitlen m) + e - 24) (- 149);
          m' = (if q \<le> e then m * 2 ^ nat (e - q)
                else
                let d = nat (q - e);
                    keep = m div 2 ^ d;
                    rest = m mod 2 ^ d;
                    half = 2 ^ (d - 1)
                in if rest > half \<or> (rest = half \<and> (sticky \<or> odd keep))
                   then keep + 1 else keep);
          bits = nat (q + 149) * 2 ^ 23 + m'
      in if bits \<ge> 255 * 2 ^ 23 then f32_infinity s else f32_signed s bits)"

definition f32_mul :: "f32 \<Rightarrow> f32 \<Rightarrow> f32" where
  "f32_mul a b =
     (let s = (f32_sign a \<noteq> f32_sign b)
      in if f32_is_nan a \<or> f32_is_nan b then f32_nan
         else if f32_is_inf a \<or> f32_is_inf b
         then (if f32_is_zero a \<or> f32_is_zero b then f32_nan else f32_infinity s)
         else f32_round s (f32_mant a * f32_mant b) (f32_exp2 a + f32_exp2 b) False)"

definition f32_div :: "f32 \<Rightarrow> f32 \<Rightarrow> f32" where
  "f32_div a b =
     (let s = (f32_sign a \<noteq> f32_sign b)
      in if f32_is_nan a \<or> f32_is_nan b then f32_nan
         else if f32_is_inf a then (if f32_is_inf b then f32_nan else f32_infinity s)
         else if f32_is_inf b then f32_signed s 0
         else if f32_is_zero b then (if f32_is_zero a then f32_nan else f32_infinity s)
         else
         let n = f32_mant a * 2 ^ 50
         in f32_round s (n div f32_mant b) (f32_exp2 a - f32_exp2 b - 50)
              (n mod f32_mant b \<noteq> 0))"

definition f32_lt_zero :: "f32 \<Rightarrow> bool" where
  "f32_lt_zero w = (f32_sign w \<and> \<not> f32_is_nan w \<and> \<not> f32_is_zero w)"

definition f32_eq_one :: "f32 \<Rightarrow> bool" where
  "f32_eq_one w = (w = 0x3F800000)"

section \<open>Logit post-processing: repetition penalty\<close>

text \<open>
  \<^verbatim>\<open>ChatterboxTTS::ApplyRepetitionPenalty\<close> (ChatterboxTTS.cpp). For every element of the
  token history the function compares the logit of that token with zero and multiplies or
  divides it by the penalty, in binary32. Token ids are the \<^verbatim>\<open>int64_t\<close> values of the
  history; ids outside \<open>[0, |logits|)\<close> are skipped by the bounds check of the source.
  \<open>occurrences G t\<close> counts the entries of the history whose value is the index \<open>t\<close>.
\<close>

definition penalize :: "f32 \<Rightarrow> f32 \<Rightarrow> f32" where
  "penalize penalty x = (if f32_lt_zero x then f32_mul x penalty else f32_div x penalty)"

definition penalty_step :: "f32 \<Rightarrow> f32 list \<Rightarrow> i64 \<Rightarrow> f32 list" where
  "penalty_step penalty logits token =
     (if sint token \<ge> 0 \<and> sint token < int (length logits)
      then logits[nat (sint token) := penalize penalty (logits ! nat (sint token))]
      else logits)"

definition ApplyRepetitionPenalty :: "f32 list \<Rightarrow> i64 list \<Rightarrow> f32 \<Rightarrow> f32 list" where
  "ApplyRepetitionPenalty logits generatedTokens penalty =
     (if f32_eq_one penalty then logits
      else foldl (penalty_step penalty) logits generatedTokens)"

definition occurrences :: "i64 list \<Rightarrow> nat \<Rightarrow> nat" where
  "occurrences G t = length (filter (\<lambda>g. sint g = int t) G)"

lemma length_penalty_step: "length (penalty_step p z t) = length z"
  by (simp add: penalty_step_def)

lemma length_foldl_penalty: "length (foldl (penalty_step p) z G) = length z"
  by (induction G arbitrary: z) (simp_all add: length_penalty_step)

lemma nth_penalty_step:
  "t < length z \<Longrightarrow>
   penalty_step p z g ! t = (if sint g = int t then penalize p (z ! t) else z ! t)"
  by (auto simp: penalty_step_def nth_list_update)

lemma nth_foldl_penalty:
  "t < length z \<Longrightarrow>
   foldl (penalty_step p) z G ! t = (penalize p ^^ occurrences G t) (z ! t)"
proof (induction G arbitrary: z)
  case Nil
  then show ?case by (simp add: occurrences_def)
next
  case (Cons g G)
  have len: "t < length (penalty_step p z g)"
    using Cons.prems by (simp add: length_penalty_step)
  show ?case
    using Cons.IH [OF len] Cons.prems
    by (simp add: nth_penalty_step funpow_swap1 occurrences_def)
qed

lemmas f32_defs = f32_mul_def f32_div_def f32_round_def f32_lt_zero_def f32_eq_one_def
  f32_sign_def f32_expo_def f32_frac_def f32_is_nan_def f32_is_inf_def f32_is_zero_def
  f32_mant_def f32_exp2_def f32_signed_def f32_nan_def f32_infinity_def bitlen.simps Let_def

text \<open>
  Binary32 at work: a third is not representable and is rounded; dividing 2.0 twice by the
  default penalty 1.2f (\<open>0x3F99999A\<close>) rounds after each division; halving is exact.
\<close>

lemma f32_div_third: "f32_div 0x3F800000 0x40400000 = 0x3EAAAAAB"
  by (simp add: f32_defs)

lemma penalize_default_examples:
  "penalize 0x3F99999A 0x40000000 = 0x3FD55555"
  "penalize 0x3F99999A 0x3FD55555 = 0x3FB1C71C"
  "penalize 0x3F99999A 0xC0400000 = 0xC0666667"
  by (simp_all add: penalize_def f32_defs)

lemma penalize_two_examples:
  "penalize 0x40000000 0x40000000 = 0x3F800000"
  "penalize 0x40000000 0x3F800000 = 0x3F000000"
  by (simp_all add: penalize_def f32_defs)

text \<open>
  C1 (as amended). The transform walks the history element by element. For a token id
  \<open>t\<close> inside the vocabulary that occurs \<open>c\<close> times in \<open>G\<close>, the binary32 step
  (\<open>z[t] \<cdot> \<rho>\<close> when \<open>z[t] < 0\<close>, \<open>z[t] / \<rho>\<close> otherwise, rounded to binary32) is applied
  \<open>c\<close> times in a row, each time to the result of the time before. Hence a token
  occurring once is transformed once, a token not in \<open>G\<close> keeps its logit, the vector keeps
  its length, and a penalty equal to \<open>1.0f\<close> leaves \<open>z\<close> unchanged.
\<close>

theorem ApplyRepetitionPenalty_per_occurrence:
  assumes "t < length z"
  shows "length (ApplyRepetitionPenalty z G \<rho>) = length z
     \<and> ApplyRepetitionPenalty z G \<rho> ! t =
         (if f32_eq_one \<rho> then z ! t else (penalize \<rho> ^^ occurrences G t) (z ! t))
     \<and> ApplyRepetitionPenalty z G 0x3F800000 = z"
  using nth_foldl_penalty [OF assms, of \<rho> G]
  by (simp add: ApplyRepetitionPenalty_def length_foldl_penalty f32_eq_one_def)

theorem ApplyRepetitionPenalty_per_occurrence_witness:
  "ApplyRepetitionPenalty [0x40000000, 0xC0400000, 0x40A00000] [6561, 0, 1, 0] 0x3F99999A ! 0
     = 0x3FB1C71C
   \<and> ApplyRepetitionPenalty [0x40000000, 0xC0400000, 0x40A00000] [6561, 0, 1, 0] 0x3F99999A ! 1
     = 0xC0666667
   \<and> ApplyRepetitionPenalty [0x40000000, 0xC0400000, 0x40A00000] [6561, 0, 1, 0] 0x3F99999A ! 2
     = 0x40A00000"
proof -
  let ?z = "[0x40000000, 0xC0400000, 0x40A00000] :: f32 list"
  let ?G = "[6561, 0, 1, 0] :: i64 list"
  have o: "occurrences ?G 0 = Suc (Suc 0)" "occurrences ?G (Suc 0) = Suc 0" "occurrences ?G 2 = 0"
    by (simp_all add: occurrences_def)
  have n: "\<not> f32_eq_one 0x3F99999A"
    by (simp add: f32_eq_one_def)
  have l: "(0::nat) < length ?z" "(1::nat) < length ?z" "(2::nat) < length ?z"
    by simp_all
  from ApplyRepetitionPenalty_per_occurrence [OF l(1), of ?G "0x3F99999A"]
    ApplyRepetitionPenalty_per_occurrence [OF l(2), of ?G "0x3F99999A"]
    ApplyRepetitionPenalty_per_occurrence [OF l(3), of ?G "0x3F99999A"]
  show ?thesis
    by (simp add: o n penalize_default_examples)
qed

text \<open>
  The claim as stated (each token of \<open>G\<close> transformed exactly once however often it
  occurs) fails on the history \<open>[6561, 0, 0]\<close> with \<open>z = [2.0f]\<close> and \<open>\<rho> = 2.0f\<close>: the
  code returns \<open>0.5f\<close> for token 0 (\<open>0x3F000000\<close>), a single application gives \<open>1.0f\<close>
  (\<open>0x3F800000\<close>).
\<close>

theorem ApplyRepetitionPenalty_once_counterexample:
  "ApplyRepetitionPenalty [0x40000000] [6561, 0, 0] 0x40000000 ! 0 = 0x3F000000
   \<and> penalize 0x40000000 ([0x40000000] ! 0) = 0x3F800000
   \<and> ApplyRepetitionPenalty [0x40000000] [6561, 0, 0] 0x40000000 ! 0
       \<noteq> penalize 0x40000000 ([0x40000000] ! 0)"
  by (simp add: ApplyRepetitionPenalty_def penalty_step_def penalize_two_examples f32_eq_one_def)


section \<open>Paths and cache keys\<close>

text \<open>
  \<^verbatim>\<open>std::filesystem::path\<close> is library code outside the repository. Its decomposition is
  modelled after the C++17 standard for the generic format with \<open>/\<close> as the only
  directory separator: \<open>filename\<close> is the text after the last separator; \<open>stem\<close> is the
  file name unless it contains a period other than a leading one (and is not \<open>.\<close> or
  \<open>..\<close>), in which case it is the prefix before the last period; \<open>extension\<close> is the rest of
  the file name; \<open>parent_path\<close> is the text before the file name without trailing
  separators (the root stays).
\<close>

definition is_sep :: "char \<Rightarrow> bool" where
  "is_sep c = (c = CHR ''/'')"

definition path_filename :: "string \<Rightarrow> string" where
  "path_filename p = rev (takeWhile (\<lambda>c. \<not> is_sep c) (rev p))"

definition path_parent_path :: "string \<Rightarrow> string" where
  "path_parent_path p =
     (let pre = rev (dropWhile (\<lambda>c. \<not> is_sep c) (rev p));
          stripped = rev (dropWhile is_sep (rev pre))
      in if stripped = [] then pre else stripped)"

definition path_has_parent_path :: "string \<Rightarrow> bool" where
  "path_has_parent_path p = (path_parent_path p \<noteq> [])"




















section \<open>Voice conditionals and their binary format\<close>

text \<open>
  \<^verbatim>\<open>struct VoiceConditionals\<close> (ChatterboxTTS.h): four data arrays and their four shape
  vectors. Floats are kept as bit patterns, since \<^verbatim>\<open>Save\<close> and \<^verbatim>\<open>Load\<close> only copy their bytes.
\<close>

record VoiceConditionals =
  condEmb :: "f32 list"
  promptToken :: "i64 list"
  speakerEmbeddings :: "f32 list"
  speakerFeatures :: "f32 list"
  condEmbShape :: "i64 list"
  promptTokenShape :: "i64 list"
  speakerEmbeddingsShape :: "i64 list"
  speakerFeaturesShape :: "i64 list"

definition IsValid :: "VoiceConditionals \<Rightarrow> bool" where
  "IsValid v = (condEmb v \<noteq> [] \<and> promptToken v \<noteq> [])"

definition emptyConditionals :: VoiceConditionals where
  "emptyConditionals =
     \<lparr>condEmb = [], promptToken = [], speakerEmbeddings = [], speakerFeatures = [],
      condEmbShape = [], promptTokenShape = [], speakerEmbeddingsShape = [],
      speakerFeaturesShape = []\<rparr>"

subsection \<open>Little-endian scalars\<close>

text \<open>
  The code writes and reads the object representation of each scalar
  (\<^verbatim>\<open>reinterpret_cast<const char*>\<close>); on the little-endian targets of the program the least
  significant byte comes first.
\<close>

primrec le_bytes :: "nat \<Rightarrow> nat \<Rightarrow> byte list" where
  "le_bytes 0 x = []"
| "le_bytes (Suc n) x = of_nat (x mod 256) # le_bytes n (x div 256)"

primrec from_le :: "byte list \<Rightarrow> nat" where
  "from_le [] = 0"
| "from_le (b # bs) = unat b + 256 * from_le bs"

definition u32_bytes :: "u32 \<Rightarrow> byte list" where
  "u32_bytes w = le_bytes 4 (unat w)"

definition u64_bytes :: "u64 \<Rightarrow> byte list" where
  "u64_bytes w = le_bytes 8 (unat w)"

definition u32_of_bytes :: "byte list \<Rightarrow> u32" where
  "u32_of_bytes bs = of_nat (from_le bs)"

definition u64_of_bytes :: "byte list \<Rightarrow> u64" where
  "u64_of_bytes bs = of_nat (from_le bs)"

definition COND_MAGIC :: u32 where
  "COND_MAGIC = 0x434F4E44"

definition COND_VERSION :: u32 where
  "COND_VERSION = 1"

subsection \<open>The bytes written by Save\<close>

text \<open>
  The lambda \<^verbatim>\<open>writeArray\<close> of \<^verbatim>\<open>VoiceConditionals::Save\<close>: the number of dimensions
  truncated to 32 bits, the dimensions, the byte count as a 64-bit value and that many
  bytes of the data. \<open>esize\<close> is \<^verbatim>\<open>sizeof\<close> of the element type and \<open>enc\<close> its bytes.
\<close>

definition writeArray :: "nat \<Rightarrow> ('a \<Rightarrow> byte list) \<Rightarrow> 'a list \<Rightarrow> i64 list \<Rightarrow> byte list" where
  "writeArray esize enc dat shape =
     (let numDims = (of_nat (length shape) :: u32);
          dataSize = (of_nat (length dat * esize) :: u64)
      in u32_bytes numDims @ concat (map u64_bytes shape)
         @ u64_bytes dataSize @ take (unat dataSize) (concat (map enc dat)))"

definition cond_blob :: "VoiceConditionals \<Rightarrow> byte list" where
  "cond_blob v =
     u32_bytes COND_MAGIC @ u32_bytes COND_VERSION
     @ writeArray 4 u32_bytes (condEmb v) (condEmbShape v)
     @ writeArray 8 u64_bytes (promptToken v) (promptTokenShape v)
     @ writeArray 4 u32_bytes (speakerEmbeddings v) (speakerEmbeddingsShape v)
     @ writeArray 4 u32_bytes (speakerFeatures v) (speakerFeaturesShape v)"

subsection \<open>The file system\<close>

text \<open>
  The file system is the environment of the cache: regular files with their contents,
  directories, and the paths the operating system refuses to open or create (\<open>locked\<close>).
  Paths are names as the program writes them. The root always is a directory, and a name
  without a directory part lives in the current directory, which exists. Exceptions of the
  C++ runtime are values of \<open>exn\<close> (\<open>RuntimeError\<close> carries the message of a
  \<^verbatim>\<open>std::runtime_error\<close>).
\<close>

record filesystem =
  files :: "string \<rightharpoonup> byte list"
  dirs :: "string set"
  locked :: "string set"

datatype exn =
  FilesystemError | LengthError | BufferOverrun | IntegerOverflow | RuntimeError string

definition is_root :: "string \<Rightarrow> bool" where
  "is_root p = (p \<noteq> [] \<and> list_all is_sep p)"

definition is_dir :: "filesystem \<Rightarrow> string \<Rightarrow> bool" where
  "is_dir fs p = (p \<in> dirs fs \<or> is_root p)"

definition fs_exists :: "filesystem \<Rightarrow> string \<Rightarrow> bool" where
  "fs_exists fs p = (files fs p \<noteq> None \<or> is_dir fs p)"

text \<open>
  A path followed by its ancestors, nearest first: \<open>a/b/c\<close>, \<open>a/b\<close>, \<open>a\<close>.
\<close>

function path_chain :: "string \<Rightarrow> string list" where
  "path_chain d =
     (if path_parent_path d = [] \<or> length d \<le> length (path_parent_path d) then [d]
      else d # path_chain (path_parent_path d))"
  by pat_completeness auto
termination
  by (relation "measure length") auto

declare path_chain.simps [simp del]

text \<open>
  \<^verbatim>\<open>std::filesystem::create_directories\<close>: nothing to do for an existing directory;
  otherwise the directory and its missing ancestors are created, which fails when the path
  or one of its ancestors is a regular file or cannot be created. The result is whether a
  directory was created and the new file system, or \<open>None\<close> for the error.
\<close>

definition create_directories :: "filesystem \<Rightarrow> string \<Rightarrow> (bool \<times> filesystem) option" where
  "create_directories fs d =
     (if d = [] then None
      else if is_dir fs d then Some (False, fs)
      else if list_ex (\<lambda>a. files fs a \<noteq> None) (path_chain d) then None
      else if list_ex (\<lambda>a. a \<in> locked fs \<and> \<not> is_dir fs a) (path_chain d) then None
      else Some (True, fs\<lparr>dirs := dirs fs \<union> set (path_chain d)\<rparr>))"

text \<open>
  Opening a \<^verbatim>\<open>std::ofstream\<close>: it fails for the empty path, for a name that denotes a
  directory (an existing directory, a name ending in a separator, \<open>.\<close> or \<open>..\<close>), for a
  path the operating system refuses, and when the directory part of the path is not an
  existing directory; otherwise the file is created or truncated. An opened output file
  accepts every write.
\<close>

definition open_write :: "filesystem \<Rightarrow> string \<Rightarrow> filesystem option" where
  "open_write fs p =
     (if p = [] \<or> is_sep (last p) \<or> path_filename p = ''.'' \<or> path_filename p = ''..''
         \<or> is_dir fs p \<or> p \<in> locked fs
         \<or> (path_has_parent_path p \<and> \<not> is_dir fs (path_parent_path p))
      then None
      else Some (fs\<lparr>files := (files fs)(p \<mapsto> [])\<rparr>))"

definition open_read :: "filesystem \<Rightarrow> string \<Rightarrow> byte list option" where
  "open_read fs p = (if p \<in> locked fs then None else files fs p)"

text \<open>\<^verbatim>\<open>VoiceConditionals::Save\<close>: the result is the returned flag and the file system left
  behind, or the exception of the throwing \<^verbatim>\<open>create_directories\<close>.\<close>

definition Save :: "filesystem \<Rightarrow> VoiceConditionals \<Rightarrow> string \<Rightarrow> exn + (bool \<times> filesystem)" where
  "Save fs v path =
     (if \<not> IsValid v then Inr (False, fs)
      else case (if path_has_parent_path path
                 then create_directories fs (path_parent_path path)
                 else Some (False, fs)) of
             None \<Rightarrow> Inl FilesystemError
           | Some (_, fs1) \<Rightarrow>
               (case open_write fs1 path of
                  None \<Rightarrow> Inr (False, fs1)
                | Some fs2 \<Rightarrow> Inr (True, fs2\<lparr>files := (files fs2)(path \<mapsto> cond_blob v)\<rparr>)))"

subsection \<open>Reading the file back\<close>

text \<open>
  \<^verbatim>\<open>std::ifstream\<close>: the bytes not yet consumed and the state flag. A read of \<open>n\<close> bytes
  does nothing on a failed stream; otherwise it stores the bytes it gets and, when fewer
  than \<open>n\<close> are left, fails the stream. The result is the list of bytes stored.
\<close>

record istream =
  buf :: "byte list"
  ok :: bool

definition sread :: "nat \<Rightarrow> istream \<Rightarrow> byte list \<times> istream" where
  "sread n s =
     (if \<not> ok s then ([], s)
      else if n \<le> length (buf s) then (take n (buf s), s\<lparr>buf := drop n (buf s)\<rparr>)
      else (buf s, \<lparr>buf = [], ok = False\<rparr>))"

text \<open>
  \<^verbatim>\<open>Load\<close> reads each scalar into an uninitialised local variable and tests the stream
  only once, at the very end. After a short read the variable holds the bytes that
  arrived followed by whatever the variable held before; that indeterminate content is
  the parameter \<open>junk\<close> (completed with zeros to the width of the variable).
\<close>

definition scalar_bytes :: "nat \<Rightarrow> byte list \<Rightarrow> byte list \<Rightarrow> byte list" where
  "scalar_bytes n junk got = take n (got @ drop (length got) junk @ replicate n 0)"

definition read_u32 :: "byte list \<Rightarrow> istream \<Rightarrow> u32 \<times> istream" where
  "read_u32 junk s = (let (got, s') = sread 4 s in (u32_of_bytes (scalar_bytes 4 junk got), s'))"

definition read_u64 :: "byte list \<Rightarrow> istream \<Rightarrow> u64 \<times> istream" where
  "read_u64 junk s = (let (got, s') = sread 8 s in (u64_of_bytes (scalar_bytes 8 junk got), s'))"

primrec chunks :: "nat \<Rightarrow> nat \<Rightarrow> 'a list \<Rightarrow> 'a list list" where
  "chunks 0 n bs = []"
| "chunks (Suc k) n bs = take n bs # chunks k n (drop n bs)"

text \<open>
  A vector grown by \<^verbatim>\<open>resize\<close> is filled with zeros, and a short read overwrites a
  prefix of it. No allocation of more than \<^verbatim>\<open>PTRDIFF_MAX\<close> bytes can succeed: \<^verbatim>\<open>resize\<close>
  throws (\<^verbatim>\<open>std::length_error\<close> or \<^verbatim>\<open>std::bad_alloc\<close>, depending on the library); smaller
  allocations are taken to succeed.
\<close>

definition PTRDIFF_MAX :: nat where
  "PTRDIFF_MAX = 2 ^ 63 - 1"

definition zero_fill :: "nat \<Rightarrow> byte list \<Rightarrow> byte list" where
  "zero_fill n got = got @ replicate (n - length got) 0"

text \<open>
  The lambdas \<^verbatim>\<open>readFloatArray\<close> and \<^verbatim>\<open>readInt64Array\<close> of \<^verbatim>\<open>VoiceConditionals::Load\<close>
  (\<open>esize\<close> is 4 or 8). The data vector has \<open>dataSize / esize\<close> elements while the read
  asks for \<open>dataSize\<close> bytes: bytes stored past the end of the vector are a buffer overrun.
\<close>

definition readArray ::
  "nat \<Rightarrow> (byte list \<Rightarrow> 'a) \<Rightarrow> byte list \<Rightarrow> byte list \<Rightarrow> istream
     \<Rightarrow> exn + ('a list \<times> i64 list \<times> istream)" where
  "readArray esize dec junkDims junkSize s =
     (let (numDims, s1) = read_u32 junkDims s;
          (gotShape, s2) = sread (unat numDims * 8) s1;
          shape = map u64_of_bytes (chunks (unat numDims) 8 (zero_fill (unat numDims * 8) gotShape));
          (dataSize, s3) = read_u64 junkSize s2;
          count = unat dataSize div esize
      in if count * esize > PTRDIFF_MAX then Inl LengthError
         else let (gotData, s4) = sread (unat dataSize) s3
              in if length gotData > count * esize then Inl BufferOverrun
                 else Inr (map dec (chunks count esize (zero_fill (count * esize) gotData)),
                           shape, s4))"

text \<open>\<^verbatim>\<open>VoiceConditionals::Load\<close>. \<open>junk k\<close> is the indeterminate content of the \<open>k\<close>-th
  scalar variable (magic, version, then the dimension count and byte count of each array).\<close>

definition Load :: "(nat \<Rightarrow> byte list) \<Rightarrow> filesystem \<Rightarrow> string \<Rightarrow> exn + VoiceConditionals option" where
  "Load junk fs path =
     (if \<not> fs_exists fs path then Inr None
      else case open_read fs path of
        None \<Rightarrow> Inr None
      | Some bytes \<Rightarrow>
         (let (magic, s1) = read_u32 (junk 0) \<lparr>buf = bytes, ok = True\<rparr>
          in if magic \<noteq> COND_MAGIC then Inr None
          else let (version, s2) = read_u32 (junk 1) s1
          in if version \<noteq> COND_VERSION then Inr None
          else case readArray 4 u32_of_bytes (junk 2) (junk 3) s2 of
            Inl e \<Rightarrow> Inl e
          | Inr (ce, ceShape, s3) \<Rightarrow>
          (case readArray 8 u64_of_bytes (junk 4) (junk 5) s3 of
            Inl e \<Rightarrow> Inl e
          | Inr (pt, ptShape, s4) \<Rightarrow>
          (case readArray 4 u32_of_bytes (junk 6) (junk 7) s4 of
            Inl e \<Rightarrow> Inl e
          | Inr (se, seShape, s5) \<Rightarrow>
          (case readArray 4 u32_of_bytes (junk 8) (junk 9) s5 of
            Inl e \<Rightarrow> Inl e
          | Inr (sf, sfShape, s6) \<Rightarrow>
              if \<not> ok s6 then Inr None
              else Inr (Some \<lparr>condEmb = ce, promptToken = pt, speakerEmbeddings = se,
                              speakerFeatures = sf, condEmbShape = ceShape,
                              promptTokenShape = ptShape, speakerEmbeddingsShape = seShape,
                              speakerFeaturesShape = sfShape\<rparr>))))))"

subsection \<open>Round trip of the encoding\<close>

lemma le_bytes_numeral:
  "le_bytes (numeral k) x = of_nat (x mod 256) # le_bytes (pred_numeral k) (x div 256)"
  by (simp only: numeral_eq_Suc [of k] le_bytes.simps)

lemma chunks_numeral:
  "chunks (numeral k) n bs = take n bs # chunks (pred_numeral k) n (drop n bs)"
  by (simp only: numeral_eq_Suc [of k] chunks.simps)

lemma length_le_bytes: "length (le_bytes n x) = n"
  by (induction n arbitrary: x) simp_all

lemma unat_byte_of_nat_mod: "unat (of_nat (x mod 256) :: byte) = x mod 256"
  by (simp add: unat_of_nat)

lemma unat_of_nat_small:
  "n < 2 ^ LENGTH('a) \<Longrightarrow> unat (of_nat n :: 'a::len word) = n"
  by (simp add: unat_of_nat)

lemma from_le_le_bytes: "x < 256 ^ n \<Longrightarrow> from_le (le_bytes n x) = x"
proof (induction n arbitrary: x)
  case 0
  then show ?case by simp
next
  case (Suc n)
  from Suc.prems have "x div 256 < 256 ^ n"
    by (simp add: less_mult_imp_div_less mult.commute)
  then have "from_le (le_bytes n (x div 256)) = x div 256"
    by (rule Suc.IH)
  then show ?case
    by (simp add: unat_byte_of_nat_mod)
qed

lemma u32_roundtrip: "u32_of_bytes (u32_bytes w) = w"
proof -
  have "unat w < 2 ^ 32"
    using unsigned_less [of w, where 'a = nat] by simp
  then have "unat w < 256 ^ 4" by simp
  then have "from_le (le_bytes 4 (unat w)) = unat w"
    by (rule from_le_le_bytes)
  then show ?thesis
    by (simp add: u32_of_bytes_def u32_bytes_def)
qed

lemma u64_roundtrip: "u64_of_bytes (u64_bytes w) = w"
proof -
  have "unat w < 2 ^ 64"
    using unsigned_less [of w, where 'a = nat] by simp
  then have "unat w < 256 ^ 8" by simp
  then have "from_le (le_bytes 8 (unat w)) = unat w"
    by (rule from_le_le_bytes)
  then show ?thesis
    by (simp add: u64_of_bytes_def u64_bytes_def)
qed

lemma length_u32_bytes: "length (u32_bytes w) = 4"
  by (simp add: u32_bytes_def length_le_bytes)

lemma length_u64_bytes: "length (u64_bytes w) = 8"
  by (simp add: u64_bytes_def length_le_bytes)

lemma sread_exact:
  "length a = n \<Longrightarrow> sread n \<lparr>buf = a @ r, ok = True\<rparr> = (a, \<lparr>buf = r, ok = True\<rparr>)"
  by (simp add: sread_def)

lemma scalar_bytes_full: "length got = n \<Longrightarrow> scalar_bytes n junk got = got"
  by (simp add: scalar_bytes_def)

lemma read_u32_written:
  "read_u32 junk \<lparr>buf = u32_bytes w @ r, ok = True\<rparr> = (w, \<lparr>buf = r, ok = True\<rparr>)"
  by (simp add: read_u32_def sread_exact length_u32_bytes scalar_bytes_full u32_roundtrip)

lemma read_u64_written:
  "read_u64 junk \<lparr>buf = u64_bytes w @ r, ok = True\<rparr> = (w, \<lparr>buf = r, ok = True\<rparr>)"
  by (simp add: read_u64_def sread_exact length_u64_bytes scalar_bytes_full u64_roundtrip)

lemma length_concat_fixed:
  "(\<And>x. length (enc x) = n) \<Longrightarrow> length (concat (map enc xs)) = length xs * n"
  by (induction xs) simp_all

lemma chunks_concat:
  "(\<And>x. length (enc x) = n) \<Longrightarrow> chunks (length xs) n (concat (map enc xs) @ r) = map enc xs"
  by (induction xs) simp_all

lemma decode_chunks:
  assumes "\<And>x. length (enc x) = n" and "\<And>x. dec (enc x) = x"
  shows "map dec (chunks (length xs) n (concat (map enc xs))) = xs"
proof -
  have "chunks (length xs) n (concat (map enc xs) @ []) = map enc xs"
    using assms(1) by (rule chunks_concat)
  then show ?thesis
    using assms(2) by (simp add: map_idI)
qed

lemma zero_fill_full: "length got = n \<Longrightarrow> zero_fill n got = got"
  by (simp add: zero_fill_def)

lemma readArray_core:
  assumes und: "unat (nd :: u32) = length shape"
    and uds: "unat (ds :: u64) = length dat * esize"
    and size: "length dat * esize \<le> PTRDIFF_MAX"
    and pos: "0 < esize"
    and len: "\<And>x. length (enc x) = esize"
    and inv: "\<And>x. dec (enc x) = x"
  shows "readArray esize dec j1 j2
           \<lparr>buf = u32_bytes nd @ (concat (map u64_bytes shape)
                   @ (u64_bytes ds @ (concat (map enc dat) @ r))), ok = True\<rparr>
         = Inr (dat, shape, \<lparr>buf = r, ok = True\<rparr>)"
proof -
  let ?sb = "concat (map u64_bytes shape)"
  let ?db = "concat (map enc dat)"
  have lsb: "length ?sb = length shape * 8"
    by (rule length_concat_fixed) (rule length_u64_bytes)
  have ldb: "length ?db = length dat * esize"
    using len by (rule length_concat_fixed)
  have shape: "map u64_of_bytes (chunks (length shape) 8 ?sb) = shape"
    by (rule decode_chunks) (rule length_u64_bytes, rule u64_roundtrip)
  have dat: "map dec (chunks (length dat) esize ?db) = dat"
    using len inv by (rule decode_chunks)
  have cnt: "length dat * esize div esize = length dat"
    using pos by simp
  have nothrow: "\<not> PTRDIFF_MAX < length dat * esize"
    using size by simp
  show ?thesis
    unfolding readArray_def
    by (simp add: read_u32_written read_u64_written und uds sread_exact lsb ldb
        zero_fill_full shape dat cnt nothrow)
qed

lemma readArray_writeArray:
  assumes rank: "length shape < 2 ^ 32"
    and size: "length dat * esize \<le> PTRDIFF_MAX"
    and pos: "0 < esize"
    and len: "\<And>x. length (enc x) = esize"
    and inv: "\<And>x. dec (enc x) = x"
  shows "readArray esize dec j1 j2 \<lparr>buf = writeArray esize enc dat shape @ r, ok = True\<rparr>
         = Inr (dat, shape, \<lparr>buf = r, ok = True\<rparr>)"
proof -
  define nd where "nd = (of_nat (length shape) :: u32)"
  define ds where "ds = (of_nat (length dat * esize) :: u64)"
  have und: "unat nd = length shape"
    unfolding nd_def by (rule unat_of_nat_small) (use rank in simp)
  have "length dat * esize < 2 ^ 64"
    using size by (simp add: PTRDIFF_MAX_def)
  then have uds: "unat ds = length dat * esize"
    unfolding ds_def by (intro unat_of_nat_small) simp
  have ldb: "length (concat (map enc dat)) = length dat * esize"
    using len by (rule length_concat_fixed)
  have w: "writeArray esize enc dat shape @ r
           = u32_bytes nd @ (concat (map u64_bytes shape)
               @ (u64_bytes ds @ (concat (map enc dat) @ r)))"
    unfolding writeArray_def Let_def nd_def [symmetric] ds_def [symmetric]
    by (simp add: uds ldb)
  show ?thesis
    unfolding w using und uds size pos len inv by (rule readArray_core)
qed

text \<open>
  Sizes the format can carry. The byte counts hold for every \<^verbatim>\<open>std::vector\<close> of the
  process (no vector is larger than \<^verbatim>\<open>PTRDIFF_MAX\<close> bytes); the ranks are the range of the
  32-bit dimension count written by \<^verbatim>\<open>Save\<close>.
\<close>

definition representable :: "VoiceConditionals \<Rightarrow> bool" where
  "representable v =
     (length (condEmbShape v) < 2 ^ 32 \<and> length (promptTokenShape v) < 2 ^ 32
      \<and> length (speakerEmbeddingsShape v) < 2 ^ 32 \<and> length (speakerFeaturesShape v) < 2 ^ 32
      \<and> length (condEmb v) * 4 \<le> PTRDIFF_MAX \<and> length (promptToken v) * 8 \<le> PTRDIFF_MAX
      \<and> length (speakerEmbeddings v) * 4 \<le> PTRDIFF_MAX
      \<and> length (speakerFeatures v) * 4 \<le> PTRDIFF_MAX)"

lemma Load_of_blob:
  assumes blob: "files fs p = Some (cond_blob v)"
    and unlocked: "p \<notin> locked fs"
    and rep: "representable v"
  shows "Load junk fs p = Inr (Some v)"
proof -
  note rd = readArray_writeArray [where enc = u32_bytes and dec = u32_of_bytes and esize = 4,
      OF _ _ _ length_u32_bytes u32_roundtrip]
  note rd64 = readArray_writeArray [where enc = u64_bytes and dec = u64_of_bytes and esize = 8,
      OF _ _ _ length_u64_bytes u64_roundtrip]
  have a1: "readArray 4 u32_of_bytes j1 j2
              \<lparr>buf = writeArray 4 u32_bytes (condEmb v) (condEmbShape v) @ r, ok = True\<rparr>
            = Inr (condEmb v, condEmbShape v, \<lparr>buf = r, ok = True\<rparr>)" for j1 j2 r
    using rep by (intro rd) (simp_all add: representable_def)
  have a2: "readArray 8 u64_of_bytes j1 j2
              \<lparr>buf = writeArray 8 u64_bytes (promptToken v) (promptTokenShape v) @ r, ok = True\<rparr>
            = Inr (promptToken v, promptTokenShape v, \<lparr>buf = r, ok = True\<rparr>)" for j1 j2 r
    using rep by (intro rd64) (simp_all add: representable_def)
  have a3: "readArray 4 u32_of_bytes j1 j2
              \<lparr>buf = writeArray 4 u32_bytes (speakerEmbeddings v) (speakerEmbeddingsShape v) @ r,
               ok = True\<rparr>
            = Inr (speakerEmbeddings v, speakerEmbeddingsShape v, \<lparr>buf = r, ok = True\<rparr>)"
    for j1 j2 r
    using rep by (intro rd) (simp_all add: representable_def)
  have a4: "readArray 4 u32_of_bytes j1 j2
              \<lparr>buf = writeArray 4 u32_bytes (speakerFeatures v) (speakerFeaturesShape v), ok = True\<rparr>
            = Inr (speakerFeatures v, speakerFeaturesShape v, \<lparr>buf = [], ok = True\<rparr>)"
    for j1 j2
    using rep rd [where r = "[]" and dat = "speakerFeatures v" and shape = "speakerFeaturesShape v"]
    by (simp add: representable_def)
  have ex: "fs_exists fs p"
    using blob by (simp add: fs_exists_def)
  have op: "open_read fs p = Some (cond_blob v)"
    using blob unlocked by (simp add: open_read_def)
  show ?thesis
    unfolding Load_def cond_blob_def
    by (simp add: ex op [unfolded cond_blob_def] read_u32_written a1 a2 a3 a4)
qed

lemma Save_true:
  assumes "Save fs v p = Inr (True, fs')"
  shows "IsValid v \<and> files fs' p = Some (cond_blob v) \<and> p \<notin> locked fs'"
proof -
  have v: "IsValid v"
    using assms by (auto simp: Save_def split: if_splits)
  have "\<exists>fs1 fs2. open_write fs1 p = Some fs2
          \<and> fs' = fs2\<lparr>files := (files fs2)(p \<mapsto> cond_blob v)\<rparr>"
    using assms v
    by (auto simp: Save_def split: if_splits option.splits prod.splits)
  then obtain fs1 fs2 where o: "open_write fs1 p = Some fs2"
    and f: "fs' = fs2\<lparr>files := (files fs2)(p \<mapsto> cond_blob v)\<rparr>"
    by blast
  from o have "p \<notin> locked fs2"
    by (auto simp: open_write_def split: if_splits)
  with f have "files fs' p = Some (cond_blob v)" and "p \<notin> locked fs'"
    by simp_all
  with v show ?thesis by simp
qed

text \<open>
  C3. Whenever \<^verbatim>\<open>Save\<close> of a record to a path returns true (the record then is valid),
  \<^verbatim>\<open>Load\<close> of the same path from the file system left behind returns a record equal to
  the saved one in all four data arrays and all four shape vectors, whatever the
  uninitialised locals of \<^verbatim>\<open>Load\<close> held. The sizes are those the format can carry.
\<close>

theorem Save_Load_roundtrip:
  assumes "representable v" and "Save fs v p = Inr (True, fs')"
  shows "IsValid v \<and> Load junk fs' p = Inr (Some v)"
proof -
  note s = Save_true [OF assms(2)]
  from s have "files fs' p = Some (cond_blob v)" and "p \<notin> locked fs'"
    by simp_all
  then have "Load junk fs' p = Inr (Some v)"
    using assms(1) by (rule Load_of_blob)
  with s show ?thesis by simp
qed

definition synthetic_vcr :: VoiceConditionals where
  "synthetic_vcr =
     \<lparr>condEmb = [0x3F800000, 0xBF000000], promptToken = [6561, 17, 4299],
      speakerEmbeddings = [0x40490FDB], speakerFeatures = [],
      condEmbShape = [1, 1, 2], promptTokenShape = [1, 3], speakerEmbeddingsShape = [1, 1],
      speakerFeaturesShape = [1, 0, 8]\<rparr>"

definition empty_disk :: filesystem where
  "empty_disk = \<lparr>files = Map.empty, dirs = {}, locked = {}\<rparr>"

definition saved_disk :: filesystem where
  "saved_disk =
     \<lparr>files = [''cache/voices/voice.cond'' \<mapsto> cond_blob synthetic_vcr],
      dirs = {''cache/voices'', ''cache''}, locked = {}\<rparr>"

lemma path_chain_example: "path_chain ''cache/voices'' = [''cache/voices'', ''cache'']"
  by (simp add: path_chain.simps path_parent_path_def is_sep_def)

lemma Save_example:
  "Save empty_disk synthetic_vcr ''cache/voices/voice.cond'' = Inr (True, saved_disk)"
  by (simp add: Save_def IsValid_def synthetic_vcr_def [THEN arg_cong [where f = condEmb]]
      synthetic_vcr_def [THEN arg_cong [where f = promptToken]]
      path_has_parent_path_def path_parent_path_def path_filename_def is_sep_def
      create_directories_def open_write_def is_dir_def is_root_def path_chain_example
      empty_disk_def saved_disk_def)

theorem Save_Load_roundtrip_witness:
  "representable synthetic_vcr
   \<and> Save empty_disk synthetic_vcr ''cache/voices/voice.cond'' = Inr (True, saved_disk)
   \<and> IsValid synthetic_vcr
   \<and> Load (\<lambda>_. []) saved_disk ''cache/voices/voice.cond'' = Inr (Some synthetic_vcr)"
proof -
  have r: "representable synthetic_vcr"
    by (simp add: representable_def synthetic_vcr_def PTRDIFF_MAX_def)
  show ?thesis
    using r Save_example Save_Load_roundtrip [OF r Save_example, of "\<lambda>_. []"] by simp
qed

text \<open>
  Where the file cannot be created \<^verbatim>\<open>Save\<close> does not return true: under a regular file
  the directory cannot be made and the exception of \<^verbatim>\<open>create_directories\<close> leaves
  \<^verbatim>\<open>Save\<close>; for a name that denotes a directory the stream does not open.
\<close>

lemma Save_refused_examples:
  "Save \<lparr>files = [''f'' \<mapsto> []], dirs = {}, locked = {}\<rparr> synthetic_vcr ''f/g/x.cond''
     = Inl FilesystemError"
  "Save empty_disk synthetic_vcr ''.'' = Inr (False, empty_disk)"
  "Save empty_disk synthetic_vcr ''cache/''
     = Inr (False, \<lparr>files = Map.empty, dirs = {''cache''}, locked = {}\<rparr>)"
  by (simp_all add: Save_def IsValid_def synthetic_vcr_def
      path_has_parent_path_def path_parent_path_def path_filename_def is_sep_def
      create_directories_def open_write_def is_dir_def is_root_def path_chain.simps
      empty_disk_def)

subsection \<open>Validity\<close>

text \<open>
  The spec's wording of validity, for comparison with \<open>IsValid\<close> (which is the inline
  member function of the header): all four arrays and all four shape headers are
  non-empty, and each header is consistent with its array (the product of its dimensions is
  the number of elements).
\<close>

definition shape_consistent :: "'a list \<Rightarrow> i64 list \<Rightarrow> bool" where
  "shape_consistent dat shape = (prod_list (map sint shape) = int (length dat))"

definition spec_valid :: "VoiceConditionals \<Rightarrow> bool" where
  "spec_valid v =
     (condEmb v \<noteq> [] \<and> promptToken v \<noteq> [] \<and> speakerEmbeddings v \<noteq> []
      \<and> speakerFeatures v \<noteq> []
      \<and> condEmbShape v \<noteq> [] \<and> promptTokenShape v \<noteq> [] \<and> speakerEmbeddingsShape v \<noteq> []
      \<and> speakerFeaturesShape v \<noteq> []
      \<and> shape_consistent (condEmb v) (condEmbShape v)
      \<and> shape_consistent (promptToken v) (promptTokenShape v)
      \<and> shape_consistent (speakerEmbeddings v) (speakerEmbeddingsShape v)
      \<and> shape_consistent (speakerFeatures v) (speakerFeaturesShape v))"

text \<open>
  C5 (as amended). \<open>IsValid\<close> holds exactly when \<open>condEmb\<close> and \<open>promptToken\<close> are
  non-empty. The other two arrays and the four shape headers are not inspected: changing
  them never changes the verdict. Every record that is valid in the spec's sense is valid
  for the code.
\<close>

theorem IsValid_two_arrays:
  "(IsValid v \<longleftrightarrow> condEmb v \<noteq> [] \<and> promptToken v \<noteq> [])
   \<and> IsValid (v\<lparr>speakerEmbeddings := se, speakerFeatures := sf, condEmbShape := s1,
                 promptTokenShape := s2, speakerEmbeddingsShape := s3,
                 speakerFeaturesShape := s4\<rparr>) = IsValid v
   \<and> (spec_valid v \<longrightarrow> IsValid v)"
  by (simp add: IsValid_def spec_valid_def)

definition full_vcr :: VoiceConditionals where
  "full_vcr =
     \<lparr>condEmb = [0x3F800000, 0xBF000000], promptToken = [6561, 17, 4299],
      speakerEmbeddings = [0x40490FDB], speakerFeatures = [0, 0],
      condEmbShape = [1, 1, 2], promptTokenShape = [1, 3], speakerEmbeddingsShape = [1, 1],
      speakerFeaturesShape = [1, 2, 1]\<rparr>"

theorem IsValid_two_arrays_witness:
  "spec_valid full_vcr \<and> IsValid full_vcr
   \<and> IsValid (full_vcr\<lparr>speakerEmbeddings := [], speakerFeatures := [], condEmbShape := [],
                 promptTokenShape := [], speakerEmbeddingsShape := [],
                 speakerFeaturesShape := []\<rparr>)"
proof -
  have s: "spec_valid full_vcr"
    by (simp add: spec_valid_def full_vcr_def shape_consistent_def)
  with IsValid_two_arrays [of full_vcr "[]" "[]" "[]" "[]" "[]" "[]"]
  show ?thesis by blast
qed

text \<open>
  The claim as stated fails on a record with only the two inspected arrays filled: the
  code calls it valid although two arrays and all four shape headers are empty.
\<close>

definition bare_vcr :: VoiceConditionals where
  "bare_vcr = emptyConditionals\<lparr>condEmb := [0x3F800000], promptToken := [6561]\<rparr>"

theorem IsValid_counterexample:
  "IsValid bare_vcr \<and> speakerEmbeddings bare_vcr = [] \<and> condEmbShape bare_vcr = []
   \<and> \<not> spec_valid bare_vcr"
  by (simp add: IsValid_def spec_valid_def bare_vcr_def emptyConditionals_def)

section \<open>The voice conditionals cache\<close>

text \<open>
  \<^verbatim>\<open>class VoiceConditionalsCache\<close> (VoiceConditionalsCache.cpp): the cache directory and
  the in-memory map. \<open>path_append\<close> is \<^verbatim>\<open>operator/\<close> of \<^verbatim>\<open>std::filesystem::path\<close>: an
  absolute right operand replaces the left one; otherwise a separator is inserted unless
  the left operand is empty or already ends with one.
\<close>

record VoiceConditionalsCache =
  m_cacheDir :: string
  m_cache :: "string \<rightharpoonup> VoiceConditionals"

definition path_append :: "string \<Rightarrow> string \<Rightarrow> string" where
  "path_append a b =
     (if b \<noteq> [] \<and> is_sep (hd b) then b
      else if a = [] \<or> is_sep (last a) then a @ b
      else a @ ''/'' @ b)"

definition GetCachePath :: "VoiceConditionalsCache \<Rightarrow> string \<Rightarrow> string" where
  "GetCachePath c key = path_append (m_cacheDir c) (key @ ''.cond'')"

definition Has :: "VoiceConditionalsCache \<Rightarrow> string \<Rightarrow> bool" where
  "Has c key = (m_cache c key \<noteq> None)"

definition Get :: "VoiceConditionalsCache \<Rightarrow> string \<Rightarrow> VoiceConditionals option" where
  "Get c key = m_cache c key"

definition ExistsOnDisk :: "filesystem \<Rightarrow> VoiceConditionalsCache \<Rightarrow> string \<Rightarrow> bool" where
  "ExistsOnDisk fs c key = fs_exists fs (GetCachePath c key)"

definition EnsureCacheDir :: "filesystem \<Rightarrow> VoiceConditionalsCache \<Rightarrow> bool \<times> filesystem" where
  "EnsureCacheDir fs c =
     (if fs_exists fs (m_cacheDir c) then (True, fs)
      else case create_directories fs (m_cacheDir c) of
             None \<Rightarrow> (False, fs)
           | Some (created, fs') \<Rightarrow> (created, fs'))"

definition SaveToDisk ::
  "filesystem \<Rightarrow> VoiceConditionalsCache \<Rightarrow> string \<Rightarrow> VoiceConditionals
     \<Rightarrow> exn + (bool \<times> filesystem)" where
  "SaveToDisk fs c key conds =
     (case EnsureCacheDir fs c of
        (False, fs1) \<Rightarrow> Inr (False, fs1)
      | (True, fs1) \<Rightarrow> Save fs1 conds (GetCachePath c key))"

definition Put ::
  "filesystem \<Rightarrow> VoiceConditionalsCache \<Rightarrow> string \<Rightarrow> VoiceConditionals \<Rightarrow> bool
     \<Rightarrow> exn + (bool \<times> VoiceConditionalsCache \<times> filesystem)" where
  "Put fs c key conds saveToDisk =
     (if \<not> IsValid conds then Inr (False, c, fs)
      else let c' = c\<lparr>m_cache := (m_cache c)(key \<mapsto> conds)\<rparr>
           in if saveToDisk
              then (case SaveToDisk fs c' key conds of
                      Inl e \<Rightarrow> Inl e
                    | Inr (saved, fs') \<Rightarrow> Inr (saved, c', fs'))
              else Inr (True, c', fs))"

definition LoadFromDisk ::
  "(nat \<Rightarrow> byte list) \<Rightarrow> filesystem \<Rightarrow> VoiceConditionalsCache \<Rightarrow> string
     \<Rightarrow> exn + (bool \<times> VoiceConditionalsCache)" where
  "LoadFromDisk junk fs c key =
     (case Load junk fs (GetCachePath c key) of
        Inl e \<Rightarrow> Inl e
      | Inr None \<Rightarrow> Inr (False, c)
      | Inr (Some conds) \<Rightarrow> Inr (True, c\<lparr>m_cache := (m_cache c)(key \<mapsto> conds)\<rparr>))"

text \<open>
  C10. \<^verbatim>\<open>Put\<close> of a record that is not valid returns false and changes neither the
  in-memory map nor the file system, whether or not it was asked to save to disk.
\<close>

theorem Put_invalid_unchanged:
  assumes "\<not> IsValid v"
  shows "Put fs c k v saveToDisk = Inr (False, c, fs)"
  using assms by (simp add: Put_def)

theorem Put_invalid_unchanged_witness:
  "\<not> IsValid emptyConditionals
   \<and> Put empty_disk \<lparr>m_cacheDir = ''cache'', m_cache = Map.empty\<rparr> ''k'' emptyConditionals True
       = Inr (False, \<lparr>m_cacheDir = ''cache'', m_cache = Map.empty\<rparr>, empty_disk)
   \<and> Put empty_disk \<lparr>m_cacheDir = ''cache'', m_cache = Map.empty\<rparr> ''k'' emptyConditionals False
       = Inr (False, \<lparr>m_cacheDir = ''cache'', m_cache = Map.empty\<rparr>, empty_disk)"
proof -
  have i: "\<not> IsValid emptyConditionals"
    by (simp add: IsValid_def emptyConditionals_def)
  show ?thesis
    using i Put_invalid_unchanged [OF i, of empty_disk
        "\<lparr>m_cacheDir = ''cache'', m_cache = Map.empty\<rparr>" "''k''" True]
      Put_invalid_unchanged [OF i, of empty_disk
        "\<lparr>m_cacheDir = ''cache'', m_cache = Map.empty\<rparr>" "''k''" False]
    by simp
qed

subsection \<open>Files that are not cache blobs\<close>

lemmas load_defs = Load_def fs_exists_def open_read_def read_u32_def read_u64_def sread_def
  scalar_bytes_def u32_of_bytes_def u64_of_bytes_def readArray_def PTRDIFF_MAX_def zero_fill_def
  COND_MAGIC_def COND_VERSION_def

lemma replicate_numeral:
  "replicate (numeral k) x = x # replicate (pred_numeral k) x"
  by (simp only: numeral_eq_Suc [of k] replicate.simps)

lemma read_u32_full:
  "length m = 4 \<Longrightarrow>
   read_u32 junk \<lparr>buf = m @ r, ok = True\<rparr> = (u32_of_bytes m, \<lparr>buf = r, ok = True\<rparr>)"
  by (simp add: read_u32_def sread_exact scalar_bytes_full)

lemma Load_rejects_bad_magic:
  assumes "files fs p = Some (m @ r)" and "length m = 4" and "u32_of_bytes m \<noteq> COND_MAGIC"
  shows "Load junk fs p = Inr None"
  using assms by (simp add: Load_def fs_exists_def open_read_def read_u32_full)

lemma Load_rejects_bad_version:
  assumes "files fs p = Some (u32_bytes COND_MAGIC @ ver @ r)" and "length ver = 4"
    and "u32_of_bytes ver \<noteq> COND_VERSION"
  shows "Load junk fs p = Inr None"
  using assms
  by (simp add: Load_def fs_exists_def open_read_def read_u32_written read_u32_full)

lemma LoadFromDisk_miss:
  "Load junk fs (GetCachePath c key) = Inr None \<Longrightarrow> LoadFromDisk junk fs c key = Inr (False, c)"
  by (simp add: LoadFromDisk_def)

text \<open>
  A file cut off right after its header: the dimension count and the byte count of the
  first array are never read, and what \<^verbatim>\<open>Load\<close> does depends on what its uninitialised
  locals happened to hold.
\<close>

lemma Load_cut_after_header:
  "Load (\<lambda>k. []) \<lparr>files = [''v.cond'' \<mapsto> [0x44, 0x4E, 0x4F, 0x43, 1, 0, 0, 0]],
       dirs = {}, locked = {}\<rparr> ''v.cond'' = Inr None"
  "Load (\<lambda>k. if k = 3 then replicate 8 255 else [])
     \<lparr>files = [''v.cond'' \<mapsto> [0x44, 0x4E, 0x4F, 0x43, 1, 0, 0, 0]],
      dirs = {}, locked = {}\<rparr> ''v.cond'' = Inl LengthError"
  by (simp_all add: load_defs replicate_numeral Let_def)

text \<open>
  A cache file with the right magic and version whose first array announces no dimensions
  and \<open>2\<^sup>6\<^sup>4 - 1\<close> data bytes, and which ends there.
\<close>

definition cut_cond_file :: "byte list" where
  "cut_cond_file =
     [0x44, 0x4E, 0x4F, 0x43, 1, 0, 0, 0, 0, 0, 0, 0, 255, 255, 255, 255, 255, 255, 255, 255]"

definition cut_disk :: filesystem where
  "cut_disk = \<lparr>files = [''cache/k.cond'' \<mapsto> cut_cond_file], dirs = {''cache''}, locked = {}\<rparr>"

text \<open>
  C7 (the code at the failing input). On that file \<^verbatim>\<open>Load\<close> resizes the data vector to
  \<open>2\<^sup>6\<^sup>2 - 1\<close> floats before it ever looks at the stream state, the allocation throws,
  and the exception leaves \<^verbatim>\<open>Load\<close> and \<^verbatim>\<open>LoadFromDisk\<close>: neither returns \<open>no value\<close> or
  false. The files with a wrong magic or version are rejected as claimed (lemmas above).
\<close>

theorem Load_cut_file_throws:
  "Load junk cut_disk ''cache/k.cond'' = Inl LengthError
   \<and> LoadFromDisk junk cut_disk \<lparr>m_cacheDir = ''cache'', m_cache = Map.empty\<rparr> ''k''
       = Inl LengthError"
proof -
  have l: "Load junk cut_disk ''cache/k.cond'' = Inl LengthError"
    by (simp add: load_defs cut_disk_def cut_cond_file_def)
  have p: "GetCachePath \<lparr>m_cacheDir = ''cache'', m_cache = Map.empty\<rparr> ''k'' = ''cache/k.cond''"
    by (simp add: GetCachePath_def path_append_def is_sep_def)
  show ?thesis
    by (simp add: LoadFromDisk_def p l)
qed

section \<open>The session manager\<close>

text \<open>
  \<^verbatim>\<open>class OnnxSessionManager\<close> (OnnxSessionManager.cpp): the map from logical names to
  sessions. A session is a value of the runtime (type \<open>'s\<close>); creating one from a model
  file is the runtime's business, given here as the function \<open>create\<close> that returns the
  session or the message of the \<^verbatim>\<open>Ort::Exception\<close>.
\<close>

record 's OnnxSessionManager =
  m_sessions :: "string \<rightharpoonup> 's"

definition IsModelLoaded :: "'s OnnxSessionManager \<Rightarrow> string \<Rightarrow> bool" where
  "IsModelLoaded mgr name = (m_sessions mgr name \<noteq> None)"

definition GetSession :: "'s OnnxSessionManager \<Rightarrow> string \<Rightarrow> 's option" where
  "GetSession mgr name = m_sessions mgr name"

definition LoadModel ::
  "filesystem \<Rightarrow> (string \<Rightarrow> string + 's) \<Rightarrow> 's OnnxSessionManager \<Rightarrow> string \<Rightarrow> string
     \<Rightarrow> exn + (bool \<times> 's OnnxSessionManager)" where
  "LoadModel fs create mgr modelPath name =
     (if IsModelLoaded mgr name then Inr (True, mgr)
      else if \<not> fs_exists fs modelPath
      then Inl (RuntimeError (''Model file not found: '' @ modelPath))
      else case create modelPath of
             Inl what \<Rightarrow>
               Inl (RuntimeError (''Failed to load model '' @ [CHR 0x27] @ name @ [CHR 0x27]
                                  @ '': '' @ what))
           | Inr session \<Rightarrow> Inr (True, mgr\<lparr>m_sessions := (m_sessions mgr)(name \<mapsto> session)\<rparr>))"

text \<open>
  C8 (as amended). When a model is already loaded under the name \<open>n\<close>, a further
  \<^verbatim>\<open>LoadModel\<close> under \<open>n\<close> returns true, whatever the path, and leaves the manager (and
  so the existing session) as it was; it neither looks at the file nor creates a session.
\<close>

theorem LoadModel_already_loaded:
  assumes "IsModelLoaded mgr n"
  shows "LoadModel fs create mgr path n = Inr (True, mgr)"
  using assms by (simp add: LoadModel_def)

theorem LoadModel_already_loaded_witness:
  "IsModelLoaded \<lparr>m_sessions = [''embed_tokens'' \<mapsto> (7::nat)]\<rparr> ''embed_tokens''
   \<and> LoadModel empty_disk (\<lambda>_. Inl ''no such file'')
         \<lparr>m_sessions = [''embed_tokens'' \<mapsto> (7::nat)]\<rparr> ''missing.onnx'' ''embed_tokens''
       = Inr (True, \<lparr>m_sessions = [''embed_tokens'' \<mapsto> 7]\<rparr>)"
proof -
  have l: "IsModelLoaded \<lparr>m_sessions = [''embed_tokens'' \<mapsto> (7::nat)]\<rparr> ''embed_tokens''"
    by (simp add: IsModelLoaded_def)
  show ?thesis
    using l LoadModel_already_loaded [OF l, of empty_disk "\<lambda>_. Inl ''no such file''"
        "''missing.onnx''"]
    by simp
qed

definition second_model_disk :: filesystem where
  "second_model_disk = \<lparr>files = [''b.onnx'' \<mapsto> []], dirs = {}, locked = {}\<rparr>"

definition create_session_2 :: "string \<Rightarrow> string + nat" where
  "create_session_2 modelPath = Inr 2"

definition language_model_loaded :: "nat OnnxSessionManager" where
  "language_model_loaded = \<lparr>m_sessions = [''language_model'' \<mapsto> 1]\<rparr>"

text \<open>
  The claim as stated (the second load is rejected and does not report success) fails:
  with \<open>language_model\<close> loaded as session 1, loading another existing model file under
  the same name returns true, and the result is not an error.
\<close>

theorem LoadModel_rejected_counterexample:
  "LoadModel second_model_disk create_session_2 language_model_loaded ''b.onnx'' ''language_model''
     = Inr (True, language_model_loaded)
   \<and> \<not> isl (LoadModel second_model_disk create_session_2 language_model_loaded
               ''b.onnx'' ''language_model'')"
  by (simp add: LoadModel_def IsModelLoaded_def language_model_loaded_def)

section \<open>The engine: preparing voice conditionals\<close>

text \<open>
  \<^verbatim>\<open>struct AudioData\<close> (AudioLoader.h). The duration is the quotient of the sample count and
  the sample rate; the source computes it in single precision, the model exactly.
\<close>

record AudioData =
  samples :: "f32 list"
  sampleRate :: int
  channels :: int

definition GetDuration :: "AudioData \<Rightarrow> real" where
  "GetDuration a =
     (if sampleRate a \<le> 0 then 0 else real (length (samples a)) / real_of_int (sampleRate a))"

text \<open>
  An output tensor of the runtime: its buffer viewed as floats and as 64-bit integers
  (\<^verbatim>\<open>ExtractFloatData\<close>, \<^verbatim>\<open>ExtractInt64Data\<close>) and its shape (\<^verbatim>\<open>GetShape\<close>).
\<close>

record tensor =
  t_f32 :: "f32 list"
  t_i64 :: "i64 list"
  t_shape :: "i64 list"

text \<open>
  \<^verbatim>\<open>class ChatterboxTTS\<close> (ChatterboxTTS.h), the fields the modelled functions use. The
  audio loader, the tokenizer and the random number generator are separate objects; the
  loader appears as the function \<open>loadFile\<close> (the audio or the loader's error message).
\<close>

record 's ChatterboxTTS =
  m_sessionManager :: "'s OnnxSessionManager"
  m_modelsLoaded :: bool
  m_dtype :: string
  m_conds :: VoiceConditionals
  m_lastError :: string

definition SPEECH_ENCODER :: string where "SPEECH_ENCODER = ''speech_encoder''"
definition EMBED_TOKENS :: string where "EMBED_TOKENS = ''embed_tokens''"
definition LANGUAGE_MODEL :: string where "LANGUAGE_MODEL = ''language_model''"
definition COND_DECODER :: string where "COND_DECODER = ''conditional_decoder''"

definition IsReady :: "'s ChatterboxTTS \<Rightarrow> bool" where
  "IsReady eng =
     (m_modelsLoaded eng
      \<and> IsModelLoaded (m_sessionManager eng) SPEECH_ENCODER
      \<and> IsModelLoaded (m_sessionManager eng) EMBED_TOKENS
      \<and> IsModelLoaded (m_sessionManager eng) LANGUAGE_MODEL
      \<and> IsModelLoaded (m_sessionManager eng) COND_DECODER)"

definition SetConditionals :: "'s ChatterboxTTS \<Rightarrow> VoiceConditionals \<Rightarrow> 's ChatterboxTTS" where
  "SetConditionals eng conds = eng\<lparr>m_conds := conds\<rparr>"

text \<open>
  \<^verbatim>\<open>ChatterboxTTS::RunSpeechEncoder\<close>. \<open>run session audio\<close> is the invocation of the
  speech encoder: its output tensors or the message of the \<^verbatim>\<open>Ort::Exception\<close>.
\<close>

definition RunSpeechEncoder ::
  "('s \<Rightarrow> f32 list \<Rightarrow> string + tensor list) \<Rightarrow> 's ChatterboxTTS \<Rightarrow> f32 list
     \<Rightarrow> bool \<times> 's ChatterboxTTS" where
  "RunSpeechEncoder run eng audio =
     (case GetSession (m_sessionManager eng) SPEECH_ENCODER of
        None \<Rightarrow> (False, eng\<lparr>m_lastError := ''Speech encoder session not loaded''\<rparr>)
      | Some session \<Rightarrow>
          (case run session audio of
             Inl what \<Rightarrow>
               (False, eng\<lparr>m_lastError := ''ONNX Runtime error in speech encoder: '' @ what\<rparr>)
           | Inr outputs \<Rightarrow>
               if length outputs < 4
               then (False, eng\<lparr>m_lastError :=
                        ''Speech encoder returned unexpected number of outputs''\<rparr>)
               else (True, eng\<lparr>m_conds :=
                        \<lparr>condEmb = t_f32 (outputs ! 0), promptToken = t_i64 (outputs ! 1),
                         speakerEmbeddings = t_f32 (outputs ! 2),
                         speakerFeatures = t_f32 (outputs ! 3),
                         condEmbShape = t_shape (outputs ! 0),
                         promptTokenShape = t_shape (outputs ! 1),
                         speakerEmbeddingsShape = t_shape (outputs ! 2),
                         speakerFeaturesShape = t_shape (outputs ! 3)\<rparr>\<rparr>)))"

text \<open>
  \<^verbatim>\<open>ChatterboxTTS::PrepareConditionals\<close>. \<open>to_string\<close> is \<^verbatim>\<open>std::to_string\<close> on the
  duration.
\<close>

definition PrepareConditionals ::
  "(string \<Rightarrow> string + AudioData) \<Rightarrow> (real \<Rightarrow> string)
     \<Rightarrow> ('s \<Rightarrow> f32 list \<Rightarrow> string + tensor list)
     \<Rightarrow> 's ChatterboxTTS \<Rightarrow> string \<Rightarrow> bool \<times> 's ChatterboxTTS" where
  "PrepareConditionals loadFile to_string run eng audioPath =
     (let eng1 = eng\<lparr>m_lastError := []\<rparr>
      in if \<not> IsReady eng1 then (False, eng1\<lparr>m_lastError := ''Models not loaded''\<rparr>)
         else case loadFile audioPath of
                Inl err \<Rightarrow> (False, eng1\<lparr>m_lastError := ''Failed to load audio: '' @ err\<rparr>)
              | Inr audioData \<Rightarrow>
                  (let duration = GetDuration audioData
                   in if duration < 5
                      then (False, eng1\<lparr>m_lastError :=
                              ''Audio prompt must be longer than 5 seconds (got ''
                              @ to_string duration @ ''s)''\<rparr>)
                      else RunSpeechEncoder run eng1 (samples audioData)))"

text \<open>
  C9. When the reference audio loads and its duration is below 5 seconds,
  \<^verbatim>\<open>PrepareConditionals\<close> returns false and leaves the stored voice conditionals, the
  sessions and the ready flag as they were; the result does not depend on the speech
  encoder (it is not invoked); and on a ready engine the error it records is the
  too-short message.
\<close>

theorem PrepareConditionals_too_short:
  assumes "loadFile p = Inr a" and "GetDuration a < 5"
  shows "fst (PrepareConditionals loadFile ts run eng p) = False
     \<and> m_conds (snd (PrepareConditionals loadFile ts run eng p)) = m_conds eng
     \<and> m_sessionManager (snd (PrepareConditionals loadFile ts run eng p)) = m_sessionManager eng
     \<and> m_modelsLoaded (snd (PrepareConditionals loadFile ts run eng p)) = m_modelsLoaded eng
     \<and> PrepareConditionals loadFile ts run eng p = PrepareConditionals loadFile ts run' eng p
     \<and> (IsReady eng \<longrightarrow>
          m_lastError (snd (PrepareConditionals loadFile ts run eng p))
          = ''Audio prompt must be longer than 5 seconds (got '' @ ts (GetDuration a) @ ''s)'')"
  using assms by (simp add: PrepareConditionals_def Let_def IsReady_def)


definition ready_engine :: "nat ChatterboxTTS" where
  "ready_engine =
     \<lparr>m_sessionManager =
        \<lparr>m_sessions = [''speech_encoder'' \<mapsto> 0, ''embed_tokens'' \<mapsto> 1,
                       ''language_model'' \<mapsto> 2, ''conditional_decoder'' \<mapsto> 3]\<rparr>,
      m_modelsLoaded = True, m_dtype = ''q4'', m_conds = full_vcr, m_lastError = ''old''\<rparr>"

definition ref_3s :: AudioData where
  "ref_3s = \<lparr>samples = replicate 72000 0, sampleRate = 24000, channels = 1\<rparr>"

theorem PrepareConditionals_too_short_witness:
  "GetDuration ref_3s < 5
   \<and> IsReady ready_engine
   \<and> fst (PrepareConditionals (\<lambda>_. Inr ref_3s) (\<lambda>_. ''3.000000'') (\<lambda>_ _. Inr [])
             ready_engine ''ref_3s.wav'') = False
   \<and> m_conds (snd (PrepareConditionals (\<lambda>_. Inr ref_3s) (\<lambda>_. ''3.000000'') (\<lambda>_ _. Inr [])
             ready_engine ''ref_3s.wav'')) = full_vcr
   \<and> m_lastError (snd (PrepareConditionals (\<lambda>_. Inr ref_3s) (\<lambda>_. ''3.000000'') (\<lambda>_ _. Inr [])
             ready_engine ''ref_3s.wav''))
       = ''Audio prompt must be longer than 5 seconds (got 3.000000s)''"
proof -
  have d: "GetDuration ref_3s < 5"
    by (simp add: GetDuration_def ref_3s_def)
  have r: "IsReady ready_engine"
    by (simp add: IsReady_def IsModelLoaded_def ready_engine_def SPEECH_ENCODER_def
        EMBED_TOKENS_def LANGUAGE_MODEL_def COND_DECODER_def)
  have c: "m_conds ready_engine = full_vcr"
    by (simp add: ready_engine_def)
  have l: "(\<lambda>_. Inr ref_3s) ''ref_3s.wav'' = (Inr ref_3s :: string + AudioData)"
    by simp
  from PrepareConditionals_too_short [OF l d, of "\<lambda>_. ''3.000000''" "\<lambda>_ _. Inr []" ready_engine]
  show ?thesis
    using d r c by simp
qed

section \<open>The engine: generation\<close>

text \<open>
  \<^verbatim>\<open>struct GenerationConfig\<close> and the constants of ChatterboxTTS.h.
\<close>

record GenerationConfig =
  maxNewTokens :: int
  repetitionPenalty :: real
  temperature :: real
  topK :: int
  topP :: real
  normalizeAudio :: bool
  seed :: nat

definition START_SPEECH_TOKEN :: i64 where "START_SPEECH_TOKEN = 6561"
definition STOP_SPEECH_TOKEN :: i64 where "STOP_SPEECH_TOKEN = 6562"
definition SILENCE_TOKEN :: i64 where "SILENCE_TOKEN = 4299"

text \<open>
  What one invocation of the language model is given: the shape and data of
  \<open>inputs_embeds\<close>, the attention mask and the position ids. Lengths and positions are
  \<^verbatim>\<open>int64_t\<close> values, kept as integers. The key/value cache tensors that an invocation
  returns and the next one receives stay inside the runtime.
\<close>

record lm_inputs =
  seqLen :: int
  embedsShape :: "int list"
  inputsEmbeds :: "f32 list"
  in_attentionMask :: "int list"
  in_positionIds :: "int list"

text \<open>
  The runtime as the generation call sees it: \<open>run_embed\<close> is the embedding model,
  \<open>run_lm\<close> one step of the language model followed by the logit post-processing and the
  draw of the next token (it sees the history, so it can stand for the random number
  generator too), \<open>run_decoder\<close> the conditional decoder. Each returns its result or the
  message of the \<^verbatim>\<open>Ort::Exception\<close>. \<open>decoderInputNames\<close> are the input names the decoder
  session reports.
\<close>

datatype dec_input = TokenInput "i64 list" "int list" | FloatInput "f32 list" "i64 list"

record 's runtime =
  run_embed :: "'s \<Rightarrow> i64 list \<Rightarrow> string + f32 list"
  run_lm :: "'s \<Rightarrow> lm_inputs \<Rightarrow> i64 list \<Rightarrow> string + i64"
  decoderInputNames :: "'s \<Rightarrow> string list"
  run_decoder :: "'s \<Rightarrow> dec_input list \<Rightarrow> string + f32 list"

text \<open>\<^verbatim>\<open>ChatterboxTTS::RunEmbedTokens\<close>: the embeddings, or the empty vector on any failure.\<close>

definition RunEmbedTokens :: "'s runtime \<Rightarrow> 's ChatterboxTTS \<Rightarrow> i64 list \<Rightarrow> f32 list" where
  "RunEmbedTokens rt eng tokenIds =
     (case GetSession (m_sessionManager eng) EMBED_TOKENS of
        None \<Rightarrow> []
      | Some session \<Rightarrow>
          (case run_embed rt session tokenIds of Inl what \<Rightarrow> [] | Inr out \<Rightarrow> out))"

text \<open>
  The variables of the generation loop. \<open>lm_trace\<close> is not a variable of the source: it
  records the inputs of every invocation of the language model, in order.
\<close>

record gen_state =
  g_step :: nat
  generatedTokens :: "i64 list"
  currentPosition :: int
  attentionMask :: "int list"
  positionIds :: "int list"
  lm_trace :: "lm_inputs list"

datatype loop_exit = Next | StopToken | Failed string | Threw exn

text \<open>
  A vector asked to hold \<open>n\<close> elements of \<open>esize\<close> bytes, \<open>n\<close> being an \<^verbatim>\<open>int64_t\<close>
  converted to \<^verbatim>\<open>size_t\<close>: a negative \<open>n\<close> becomes a size beyond \<^verbatim>\<open>max_size()\<close>, and
  \<^verbatim>\<open>assign\<close>, \<^verbatim>\<open>resize\<close> and \<^verbatim>\<open>reserve\<close> throw.
\<close>

definition alloc_ok :: "nat \<Rightarrow> int \<Rightarrow> bool" where
  "alloc_ok esize n = (0 \<le> n \<and> n * int esize \<le> int PTRDIFF_MAX)"

definition resize_ones :: "int list \<Rightarrow> nat \<Rightarrow> int list" where
  "resize_ones v n = take n v @ replicate (n - length v) 1"

text \<open>
  The first part of the loop body of \<^verbatim>\<open>ChatterboxTTS::Generate\<close> (the region the source
  profiles as \<open>prepareInputs\<close>): the embeddings, the attention mask and the position ids
  of this step. The result is the early exit of the call, or the inputs together with
  the updated loop variables.
\<close>

definition prepareInputs ::
  "'s runtime \<Rightarrow> 's ChatterboxTTS \<Rightarrow> f32 list \<Rightarrow> int \<Rightarrow> int \<Rightarrow> int \<Rightarrow> gen_state
     \<Rightarrow> (loop_exit \<times> gen_state) + (lm_inputs \<times> gen_state)" where
  "prepareInputs rt eng textEmbeddings condSeqLen textSeqLen hiddenSize st =
     (let step = g_step st;
          sl = (if step = 0 then condSeqLen + textSeqLen else 1);
          emb = (if step = 0 then condEmb (m_conds eng) @ textEmbeddings
                 else RunEmbedTokens rt eng [last (generatedTokens st)])
      in if step \<noteq> 0 \<and> emb = [] then Inl (Failed ''Failed to get token embedding'', st)
         else
         let totalSeqLen = (if step = 0 then sl else currentPosition st + sl)
         in if \<not> alloc_ok 8 totalSeqLen then Inl (Threw LengthError, st)
            else
            let mask = (if step = 0 then replicate (nat totalSeqLen) 1
                        else resize_ones (attentionMask st) (nat totalSeqLen))
            in if \<not> alloc_ok 8 sl then Inl (Threw LengthError, st\<lparr>attentionMask := mask\<rparr>)
               else
               let pos = map (\<lambda>i. currentPosition st + int i) [0..<nat sl]
               in Inr (\<lparr>seqLen = sl, embedsShape = [1, sl, hiddenSize], inputsEmbeds = emb,
                        in_attentionMask = mask, in_positionIds = pos\<rparr>,
                       st\<lparr>attentionMask := mask, positionIds := pos\<rparr>))"

text \<open>
  One iteration of the loop body: the inputs are prepared, the language model is run on
  them and the next token is drawn; the stop token ends the loop, any other token
  advances the position by the sequence length of this step.
\<close>

definition gen_step ::
  "'s runtime \<Rightarrow> 's ChatterboxTTS \<Rightarrow> 's \<Rightarrow> f32 list \<Rightarrow> int \<Rightarrow> int \<Rightarrow> int \<Rightarrow> gen_state
     \<Rightarrow> loop_exit \<times> gen_state" where
  "gen_step rt eng lmSession textEmbeddings condSeqLen textSeqLen hiddenSize st =
     (case prepareInputs rt eng textEmbeddings condSeqLen textSeqLen hiddenSize st of
        Inl r \<Rightarrow> r
      | Inr (inp, st0) \<Rightarrow>
          (let st1 = st0\<lparr>lm_trace := lm_trace st0 @ [inp]\<rparr>
           in case run_lm rt lmSession inp (generatedTokens st1) of
                Inl what \<Rightarrow>
                  (Failed (''ONNX Runtime error in language model: '' @ what), st1)
              | Inr nextToken \<Rightarrow>
                  (let st2 = st1\<lparr>generatedTokens := generatedTokens st1 @ [nextToken]\<rparr>
                   in if nextToken = STOP_SPEECH_TOKEN then (StopToken, st2)
                      else (Next, st2\<lparr>currentPosition := currentPosition st2 + seqLen inp,
                                      g_step := g_step st2 + 1\<rparr>))))"

text \<open>
  The loop \<^verbatim>\<open>for (step = 0; step < maxNewTokens; ++step)\<close>: the first argument is the
  number of iterations left. \<open>Next\<close> as the exit of the whole loop means that it ran out
  of iterations without a stop token.
\<close>

primrec gen_loop ::
  "nat \<Rightarrow> 's runtime \<Rightarrow> 's ChatterboxTTS \<Rightarrow> 's \<Rightarrow> f32 list \<Rightarrow> int \<Rightarrow> int \<Rightarrow> int \<Rightarrow> gen_state
     \<Rightarrow> loop_exit \<times> gen_state" where
  "gen_loop 0 rt eng lmSession textEmbeddings condSeqLen textSeqLen hiddenSize st = (Next, st)"
| "gen_loop (Suc n) rt eng lmSession textEmbeddings condSeqLen textSeqLen hiddenSize st =
     (case gen_step rt eng lmSession textEmbeddings condSeqLen textSeqLen hiddenSize st of
        (Next, st') \<Rightarrow> gen_loop n rt eng lmSession textEmbeddings condSeqLen textSeqLen hiddenSize st'
      | r \<Rightarrow> r)"

text \<open>
  The assembly of the decoder input after the loop: the generated tokens from index 1 up
  to the end (one less when the last token is the stop token), three silence tokens, and
  the prompt tokens of the voice conditionals in front.
\<close>

definition speechTokensOf :: "i64 list \<Rightarrow> i64 list" where
  "speechTokensOf generated =
     (let endIdx = length generated;
          endIdx' = (if endIdx > 0 \<and> generated ! (endIdx - 1) = STOP_SPEECH_TOKEN
                     then endIdx - 1 else endIdx)
      in map (\<lambda>i. generated ! i) [1..<endIdx'] @ replicate 3 SILENCE_TOKEN)"

definition decoderTokensOf :: "VoiceConditionals \<Rightarrow> i64 list \<Rightarrow> i64 list" where
  "decoderTokensOf conds generated = promptToken conds @ speechTokensOf generated"

text \<open>
  The loop over the decoder's input names: each known name binds its tensor, an unknown
  name ends the call with an error.
\<close>

fun bind_decoder_inputs ::
  "VoiceConditionals \<Rightarrow> i64 list \<Rightarrow> string list \<Rightarrow> string + dec_input list" where
  "bind_decoder_inputs conds decoderTokens [] = Inr []"
| "bind_decoder_inputs conds decoderTokens (name # names) =
     (if name = ''speech_tokens'' \<or> name = ''speaker_embeddings'' \<or> name = ''speaker_features''
      then (case bind_decoder_inputs conds decoderTokens names of
              Inl e \<Rightarrow> Inl e
            | Inr ins \<Rightarrow>
                Inr ((if name = ''speech_tokens''
                      then TokenInput decoderTokens [1, int (length decoderTokens)]
                      else if name = ''speaker_embeddings''
                      then FloatInput (speakerEmbeddings conds) (speakerEmbeddingsShape conds)
                      else FloatInput (speakerFeatures conds) (speakerFeaturesShape conds)) # ins))
      else Inl (''Unknown decoder input: '' @ name))"

text \<open>
  The outcome of a generation call: the returned audio (empty on failure), the error
  message left in the engine, the exception if one left the call, the loop variables at
  the end of the loop, and the inputs handed to the conditional decoder when it was run.
\<close>

record gen_outcome =
  out_audio :: "f32 list"
  out_error :: string
  out_threw :: "exn option"
  out_state :: "gen_state option"
  out_decoderInputs :: "dec_input list option"

definition gen_failed :: "string \<Rightarrow> gen_state option \<Rightarrow> gen_outcome" where
  "gen_failed msg st =
     \<lparr>out_audio = [], out_error = msg, out_threw = None, out_state = st,
      out_decoderInputs = None\<rparr>"

definition gen_threw :: "exn \<Rightarrow> gen_state option \<Rightarrow> gen_outcome" where
  "gen_threw e st =
     \<lparr>out_audio = [], out_error = [], out_threw = Some e, out_state = st,
      out_decoderInputs = None\<rparr>"

text \<open>The loop variables before the first iteration.\<close>

definition gen_init :: gen_state where
  "gen_init =
     \<lparr>g_step = 0, generatedTokens = [START_SPEECH_TOKEN], currentPosition = 0,
      attentionMask = [], positionIds = [], lm_trace = []\<rparr>"

definition int64_ok :: "int \<Rightarrow> bool" where
  "int64_ok x = (- (2 ^ 63) \<le> x \<and> x < 2 ^ 63)"

text \<open>
  \<^verbatim>\<open>ChatterboxTTS::Generate\<close>: the checks, the three \<^verbatim>\<open>reserve\<close> calls, the embedding of the
  text tokens, the loop, the assembly of the decoder input and the decoder call. An
  \<^verbatim>\<open>int64_t\<close> sum or product that leaves the range is undefined in the source; the model
  ends the call there with \<open>IntegerOverflow\<close>. Seeding the random number generator and the
  progress callback have no effect on the modelled variables.
\<close>


definition Generate ::
  "'s runtime \<Rightarrow> 's ChatterboxTTS \<Rightarrow> i64 list \<Rightarrow> GenerationConfig \<Rightarrow> gen_outcome" where
  "Generate rt eng tokenIds config =
     (if \<not> IsReady eng then gen_failed ''Models not loaded'' None
      else if \<not> IsValid (m_conds eng) then gen_failed ''Voice conditionals not prepared'' None
      else if tokenIds = [] then gen_failed ''No input tokens'' None
      else
      case (GetSession (m_sessionManager eng) LANGUAGE_MODEL,
            GetSession (m_sessionManager eng) EMBED_TOKENS,
            GetSession (m_sessionManager eng) COND_DECODER) of
        (Some lmSession, Some embedSession, Some decoderSession) \<Rightarrow>
          (let shape = condEmbShape (m_conds eng);
               condSeqLen = (if length shape \<ge> 2 then sint (shape ! 1) else 0);
               hiddenSize = (if length shape \<ge> 3 then sint (shape ! 2) else 0);
               textSeqLen = int (length tokenIds);
               maxTotalSeqLen = condSeqLen + textSeqLen + maxNewTokens config
           in if \<not> int64_ok (condSeqLen + textSeqLen) \<or> \<not> int64_ok maxTotalSeqLen
              then gen_threw IntegerOverflow None
              else if \<not> alloc_ok 8 maxTotalSeqLen
                      \<or> \<not> alloc_ok 8 (max (condSeqLen + textSeqLen) 1)
              then gen_threw LengthError None
              else if \<not> int64_ok ((condSeqLen + textSeqLen) * hiddenSize)
              then gen_threw IntegerOverflow None
              else if \<not> alloc_ok 4 ((condSeqLen + textSeqLen) * hiddenSize)
              then gen_threw LengthError None
              else
              let textEmbeddings = RunEmbedTokens rt eng tokenIds
              in if textEmbeddings = [] then gen_failed ''Failed to get text embeddings'' None
                 else
                 case gen_loop (nat (maxNewTokens config)) rt eng lmSession textEmbeddings
                        condSeqLen textSeqLen hiddenSize
                        gen_init of
                   (Failed msg, st) \<Rightarrow> gen_failed msg (Some st)
                 | (Threw e, st) \<Rightarrow> gen_threw e (Some st)
                 | (_, st) \<Rightarrow>
                     (let decoderTokens = decoderTokensOf (m_conds eng) (generatedTokens st)
                      in case bind_decoder_inputs (m_conds eng) decoderTokens
                                (decoderInputNames rt decoderSession) of
                           Inl msg \<Rightarrow> gen_failed msg (Some st)
                         | Inr ins \<Rightarrow>
                             (case run_decoder rt decoderSession ins of
                                Inl what \<Rightarrow>
                                  \<lparr>out_audio = [],
                                   out_error = ''ONNX Runtime error in conditional decoder: ''
                                               @ what,
                                   out_threw = None, out_state = Some st,
                                   out_decoderInputs = Some ins\<rparr>
                              | Inr audio \<Rightarrow>
                                  \<lparr>out_audio = audio, out_error = [], out_threw = None,
                                   out_state = Some st, out_decoderInputs = Some ins\<rparr>)))
      | _ \<Rightarrow> gen_failed ''Required session not loaded'' None)"

subsection \<open>What one step prepares\<close>

lemma length_resize_ones: "length (resize_ones v n) = n"
  by (simp add: resize_ones_def)

lemma prepareInputs_Inl:
  assumes "prepareInputs rt eng te c t h st = Inl (ex, st')"
  shows "ex \<noteq> Next \<and> ex \<noteq> StopToken \<and> lm_trace st' = lm_trace st
         \<and> generatedTokens st' = generatedTokens st \<and> g_step st' = g_step st"
  using assms
  by (auto simp: prepareInputs_def Let_def split: if_splits)

lemma prepareInputs_Inr:
  assumes "prepareInputs rt eng te c t h st = Inr (inp, st0)"
  shows "seqLen inp = (if g_step st = 0 then c + t else 1)"
    and "embedsShape inp = [1, seqLen inp, h]"
    and "0 \<le> seqLen inp"
    and "in_attentionMask inp = attentionMask st0"
    and "0 \<le> (if g_step st = 0 then 0 else currentPosition st) + seqLen inp"
    and "length (attentionMask st0)
         = nat ((if g_step st = 0 then 0 else currentPosition st) + seqLen inp)"
    and "in_positionIds inp = map (\<lambda>i. currentPosition st + int i) [0..<nat (seqLen inp)]"
    and "lm_trace st0 = lm_trace st"
    and "generatedTokens st0 = generatedTokens st"
    and "g_step st0 = g_step st"
    and "currentPosition st0 = currentPosition st"
  using assms
  by (auto simp: prepareInputs_def Let_def alloc_ok_def length_resize_ones split: if_splits)


subsection \<open>The inputs along a generation call\<close>

text \<open>
  \<open>step_ok tr s\<close>: what the inputs of step \<open>s\<close> must look like relative to the steps
  before it. \<open>loop_inv\<close> ties the loop variables to the inputs bound so far.
\<close>

definition step_ok :: "lm_inputs list \<Rightarrow> nat \<Rightarrow> bool" where
  "step_ok tr s =
     (seqLen (tr ! s) = 1
      \<and> embedsShape (tr ! s) ! 1 = 1
      \<and> length (in_attentionMask (tr ! s)) = length (in_attentionMask (tr ! (s - 1))) + 1
      \<and> int (length (in_positionIds (tr ! s))) = seqLen (tr ! s)
      \<and> in_positionIds (tr ! s) ! 0 = sum_list (map seqLen (take s tr)))"

definition steps_ok :: "lm_inputs list \<Rightarrow> bool" where
  "steps_ok tr = (\<forall>s. 1 \<le> s \<and> s < length tr \<longrightarrow> step_ok tr s)"

definition loop_inv :: "gen_state \<Rightarrow> bool" where
  "loop_inv st =
     (length (lm_trace st) = g_step st
      \<and> currentPosition st = sum_list (map seqLen (lm_trace st))
      \<and> (lm_trace st \<noteq> [] \<longrightarrow>
            in_attentionMask (last (lm_trace st)) = attentionMask st
            \<and> int (length (attentionMask st)) = currentPosition st)
      \<and> steps_ok (lm_trace st))"

lemma step_ok_append:
  assumes "s < length tr"
  shows "step_ok (tr @ [x]) s = step_ok tr s"
proof -
  from assms have "s - 1 < length tr" by simp
  with assms show ?thesis
    by (simp add: step_ok_def nth_append)
qed

lemma steps_ok_snoc:
  assumes "steps_ok tr" and "tr \<noteq> [] \<Longrightarrow> step_ok (tr @ [x]) (length tr)"
  shows "steps_ok (tr @ [x])"
  unfolding steps_ok_def
proof (intro allI impI)
  fix s assume s: "1 \<le> s \<and> s < length (tr @ [x])"
  show "step_ok (tr @ [x]) s"
  proof (cases "s < length tr")
    case True
    with assms(1) s show ?thesis
      by (simp add: step_ok_append steps_ok_def)
  next
    case False
    with s have e: "s = length tr" by simp
    with s have "tr \<noteq> []" by auto
    with assms(2) e show ?thesis by simp
  qed
qed

lemma new_step_ok:
  assumes inv: "loop_inv st" and ne: "lm_trace st \<noteq> []"
    and prep: "prepareInputs rt eng te c t h st = Inr (inp, st0)"
  shows "step_ok (lm_trace st @ [inp]) (length (lm_trace st))"
proof -
  let ?tr = "lm_trace st"
  from inv ne have pos: "g_step st \<noteq> 0"
    by (cases "lm_trace st") (auto simp: loop_inv_def)
  have sl: "seqLen inp = 1"
    using prepareInputs_Inr(1) [OF prep] pos by simp
  have shape: "embedsShape inp ! 1 = 1"
    using prepareInputs_Inr(2) [OF prep] sl by simp
  have prev: "in_attentionMask (last ?tr) = attentionMask st"
    and len: "int (length (attentionMask st)) = currentPosition st"
    and cp: "currentPosition st = sum_list (map seqLen ?tr)"
    using inv ne by (auto simp: loop_inv_def)
  have "length (in_attentionMask inp) = nat (currentPosition st + 1)"
    using prepareInputs_Inr(4,6) [OF prep] pos sl by simp
  then have mask: "length (in_attentionMask inp) = length (attentionMask st) + 1"
    using len by linarith
  have ids: "in_positionIds inp = [currentPosition st]"
    using prepareInputs_Inr(7) [OF prep] sl by simp
  have lastnth: "(?tr @ [inp]) ! (length ?tr - 1) = last ?tr"
    using ne by (simp add: nth_append last_conv_nth)
  show ?thesis
    unfolding step_ok_def
    using sl shape ids cp lastnth prev mask by simp
qed

lemma gen_step_inv:
  assumes inv: "loop_inv st"
    and step: "gen_step rt eng lm te c t h st = (ex, st')"
  shows "steps_ok (lm_trace st') \<and> length (lm_trace st') \<le> g_step st' + 1
         \<and> (ex = Next \<longrightarrow> loop_inv st')"
proof (cases "prepareInputs rt eng te c t h st")
  case (Inl r)
  obtain ex0 st0 where r: "r = (ex0, st0)" by (cases r)
  from step Inl r have "ex = ex0" and "st' = st0"
    by (simp_all add: gen_step_def)
  with prepareInputs_Inl [OF Inl [unfolded r]] inv show ?thesis
    by (simp add: loop_inv_def)
next
  case (Inr p)
  obtain inp st0 where p: "p = (inp, st0)" by (cases p)
  note prep = Inr [unfolded p]
  note facts = prepareInputs_Inr [OF prep]
  let ?tr' = "lm_trace st @ [inp]"
  have ok: "steps_ok ?tr'"
  proof (rule steps_ok_snoc)
    show "steps_ok (lm_trace st)"
      using inv by (simp add: loop_inv_def)
    show "step_ok ?tr' (length (lm_trace st))" if "lm_trace st \<noteq> []"
      using inv that prep by (rule new_step_ok)
  qed
  have len: "length (lm_trace st) = g_step st"
    and cp: "currentPosition st = sum_list (map seqLen (lm_trace st))"
    using inv by (simp_all add: loop_inv_def)
  have cp0: "g_step st = 0 \<Longrightarrow> currentPosition st = 0"
    using len cp by simp
  have masklen: "int (length (attentionMask st0)) = currentPosition st + seqLen inp"
    using facts(5,6) cp0 by (cases "g_step st = 0") simp_all
  show ?thesis
  proof (cases "run_lm rt lm inp (generatedTokens st0)")
    case (Inl what)
    with step prep have "st' = st0\<lparr>lm_trace := lm_trace st0 @ [inp]\<rparr>" and "ex \<noteq> Next"
      by (auto simp: gen_step_def Let_def)
    with ok facts(8,10) len show ?thesis by simp
  next
    case (Inr tok)
    show ?thesis
    proof (cases "tok = STOP_SPEECH_TOKEN")
      case True
      with step prep Inr have "lm_trace st' = ?tr'" and "g_step st' = g_step st" and "ex \<noteq> Next"
        using facts(8,10) by (auto simp: gen_step_def Let_def)
      with ok len show ?thesis by simp
    next
      case False
      with step prep Inr have tr: "lm_trace st' = ?tr'" and gs: "g_step st' = g_step st + 1"
        and cp': "currentPosition st' = currentPosition st + seqLen inp"
        and am: "attentionMask st' = attentionMask st0"
        using facts(8,10,11) by (auto simp: gen_step_def Let_def)
      have "loop_inv st'"
        unfolding loop_inv_def
        using tr gs cp' am ok len cp masklen facts(4) by simp
      with tr gs ok len show ?thesis by simp
    qed
  qed
qed

lemma gen_loop_inv:
  assumes "loop_inv st"
    and "gen_loop n rt eng lm te c t h st = (ex, st')"
  shows "steps_ok (lm_trace st') \<and> length (lm_trace st') \<le> g_step st' + 1"
  using assms
proof (induction n arbitrary: st)
  case 0
  then show ?case by (auto simp: loop_inv_def)
next
  case (Suc n)
  obtain ex1 st1 where s1: "gen_step rt eng lm te c t h st = (ex1, st1)"
    by (cases "gen_step rt eng lm te c t h st")
  note one = gen_step_inv [OF Suc.prems(1) s1]
  show ?case
  proof (cases "ex1 = Next")
    case True
    with one have "loop_inv st1" by simp
    moreover from Suc.prems(2) s1 True have "gen_loop n rt eng lm te c t h st1 = (ex, st')"
      by simp
    ultimately show ?thesis by (rule Suc.IH)
  next
    case False
    with Suc.prems(2) s1 have "st' = st1"
      by (cases ex1) simp_all
    with one show ?thesis by simp
  qed
qed

subsection \<open>A concrete generation call\<close>

text \<open>
  A small runtime for the examples: every token embeds to one float, the language model
  answers token 100 until the history has six entries and the stop token then (so the
  stop token is drawn at step 5), and the decoder takes its three inputs by name.
\<close>

definition demo_runtime :: "nat runtime" where
  "demo_runtime =
     \<lparr>run_embed = (\<lambda>_ toks. Inr (replicate (length toks) 0)),
      run_lm = (\<lambda>_ _ hist. Inr (if length hist = 6 then STOP_SPEECH_TOKEN else 100)),
      decoderInputNames = (\<lambda>_. [''speech_tokens'', ''speaker_embeddings'', ''speaker_features'']),
      run_decoder = (\<lambda>_ _. Inr [0, 0])\<rparr>"

definition demo_config :: GenerationConfig where
  "demo_config =
     \<lparr>maxNewTokens = 8, repetitionPenalty = 1.2, temperature = 0.8, topK = 1000,
      topP = 0.95, normalizeAudio = True, seed = 42\<rparr>"

definition demo_inputs :: "nat \<Rightarrow> lm_inputs" where
  "demo_inputs s =
     (if s = 0
      then \<lparr>seqLen = 6, embedsShape = [1, 6, 2],
            inputsEmbeds = [0x3F800000, 0xBF000000, 0, 0, 0, 0, 0],
            in_attentionMask = replicate 6 1, in_positionIds = [0, 1, 2, 3, 4, 5]\<rparr>
      else \<lparr>seqLen = 1, embedsShape = [1, 1, 2], inputsEmbeds = [0],
            in_attentionMask = replicate (6 + s) 1, in_positionIds = [5 + int s]\<rparr>)"

lemma gen_loop_numeral:
  "gen_loop (numeral k) rt eng lm te c t h st =
     (case gen_step rt eng lm te c t h st of
        (Next, st') \<Rightarrow> gen_loop (pred_numeral k) rt eng lm te c t h st'
      | r \<Rightarrow> r)"
  by (simp only: numeral_eq_Suc [of k] gen_loop.simps)

lemmas gen_defs = Generate_def gen_init_def gen_step_def prepareInputs_def RunEmbedTokens_def GetSession_def
  IsReady_def IsModelLoaded_def IsValid_def alloc_ok_def int64_ok_def PTRDIFF_MAX_def
  resize_ones_def decoderTokensOf_def speechTokensOf_def gen_failed_def gen_threw_def
  SPEECH_ENCODER_def EMBED_TOKENS_def LANGUAGE_MODEL_def COND_DECODER_def
  START_SPEECH_TOKEN_def STOP_SPEECH_TOKEN_def SILENCE_TOKEN_def

lemma demo_generate:
  "Generate demo_runtime ready_engine [10, 20, 30, 50256, 50256] demo_config =
     \<lparr>out_audio = [0, 0], out_error = [], out_threw = None,
      out_state = Some \<lparr>g_step = 5,
         generatedTokens = [6561, 100, 100, 100, 100, 100, 6562],
         currentPosition = 10, attentionMask = replicate 11 1, positionIds = [10],
         lm_trace = map demo_inputs [0, 1, 2, 3, 4, 5]\<rparr>,
      out_decoderInputs = Some
        [TokenInput [6561, 17, 4299, 100, 100, 100, 100, 100, 4299, 4299, 4299] [1, 11],
         FloatInput [0x40490FDB] [1, 1], FloatInput [0, 0] [1, 2, 1]]\<rparr>"
  by (simp add: gen_defs demo_runtime_def demo_config_def ready_engine_def full_vcr_def
      demo_inputs_def gen_loop_numeral replicate_numeral Let_def upt_rec)




subsection \<open>The generated tokens along the loop\<close>

definition tokens_inv :: "gen_state \<Rightarrow> bool" where
  "tokens_inv st =
     (generatedTokens st \<noteq> [] \<and> hd (generatedTokens st) = START_SPEECH_TOKEN
      \<and> length (generatedTokens st) = g_step st + 1
      \<and> STOP_SPEECH_TOKEN \<notin> set (generatedTokens st))"

definition stopped_tokens :: "gen_state \<Rightarrow> bool" where
  "stopped_tokens st =
     (generatedTokens st \<noteq> [] \<and> hd (generatedTokens st) = START_SPEECH_TOKEN
      \<and> length (generatedTokens st) = g_step st + 2
      \<and> last (generatedTokens st) = STOP_SPEECH_TOKEN)"

lemma gen_step_tokens:
  assumes inv: "tokens_inv st"
    and step: "gen_step rt eng lm te c t h st = (ex, st')"
  shows "(ex = Next \<longrightarrow> tokens_inv st') \<and> (ex = StopToken \<longrightarrow> stopped_tokens st')"
proof (cases "prepareInputs rt eng te c t h st")
  case (Inl r)
  obtain ex0 st0 where r: "r = (ex0, st0)" by (cases r)
  from step Inl r have "ex = ex0"
    by (simp add: gen_step_def)
  with prepareInputs_Inl [OF Inl [unfolded r]] show ?thesis
    by simp
next
  case (Inr p)
  obtain inp st0 where p: "p = (inp, st0)" by (cases p)
  note prep = Inr [unfolded p]
  note facts = prepareInputs_Inr(9,10) [OF prep]
  show ?thesis
  proof (cases "run_lm rt lm inp (generatedTokens st0)")
    case (Inl what)
    with step prep have "ex \<noteq> Next" and "ex \<noteq> StopToken"
      by (auto simp: gen_step_def Let_def)
    then show ?thesis by simp
  next
    case (Inr tok)
    show ?thesis
    proof (cases "tok = STOP_SPEECH_TOKEN")
      case True
      with step prep Inr have "ex = StopToken"
        and "generatedTokens st' = generatedTokens st @ [tok]" and "g_step st' = g_step st"
        using facts by (auto simp: gen_step_def Let_def)
      with inv True show ?thesis
        by (simp add: tokens_inv_def stopped_tokens_def)
    next
      case False
      with step prep Inr have "ex = Next"
        and "generatedTokens st' = generatedTokens st @ [tok]" and "g_step st' = g_step st + 1"
        using facts by (auto simp: gen_step_def Let_def)
      with inv False show ?thesis
        by (simp add: tokens_inv_def)
    qed
  qed
qed

lemma gen_loop_tokens:
  assumes "tokens_inv st"
    and "gen_loop n rt eng lm te c t h st = (ex, st')"
  shows "(ex = Next \<longrightarrow> tokens_inv st') \<and> (ex = StopToken \<longrightarrow> stopped_tokens st')"
  using assms
proof (induction n arbitrary: st)
  case 0
  then show ?case by simp
next
  case (Suc n)
  obtain ex1 st1 where s1: "gen_step rt eng lm te c t h st = (ex1, st1)"
    by (cases "gen_step rt eng lm te c t h st")
  note one = gen_step_tokens [OF Suc.prems(1) s1]
  show ?case
  proof (cases "ex1 = Next")
    case True
    with one have "tokens_inv st1" by simp
    moreover from Suc.prems(2) s1 True have "gen_loop n rt eng lm te c t h st1 = (ex, st')"
      by simp
    ultimately show ?thesis by (rule Suc.IH)
  next
    case False
    with Suc.prems(2) s1 have "st' = st1" and "ex = ex1"
      by (cases ex1; simp)+
    with one False show ?thesis by simp
  qed
qed

lemma map_nth_from_one:
  assumes "n \<le> length g"
  shows "map (\<lambda>i. g ! i) [1..<n] = tl (take n g)"
proof (rule nth_equalityI)
  show "length (map (\<lambda>i. g ! i) [1..<n]) = length (tl (take n g))"
    using assms by simp
next
  fix i assume "i < length (map (\<lambda>i. g ! i) [1..<n])"
  then have i: "i < n - 1" by simp
  then have "tl (take n g) ! i = take n g ! Suc i"
    using assms by (simp add: nth_tl)
  also have "\<dots> = g ! Suc i"
    using i by simp
  finally show "map (\<lambda>i. g ! i) [1..<n] ! i = tl (take n g) ! i"
    using i by simp
qed

lemma speechTokensOf_eq:
  assumes "g \<noteq> []"
  shows "speechTokensOf g
         = tl (if last g = STOP_SPEECH_TOKEN then butlast g else g)
           @ [SILENCE_TOKEN, SILENCE_TOKEN, SILENCE_TOKEN]"
proof -
  have l: "g ! (length g - 1) = last g"
    using assms by (simp add: last_conv_nth)
  have pos: "0 < length g"
    using assms by simp
  have three: "replicate 3 SILENCE_TOKEN = [SILENCE_TOKEN, SILENCE_TOKEN, SILENCE_TOKEN]"
    by (simp add: numeral_3_eq_3)
  show ?thesis
  proof (cases "last g = STOP_SPEECH_TOKEN")
    case True
    have "map (\<lambda>i. g ! i) [1..<length g - 1] = tl (take (length g - 1) g)"
      by (rule map_nth_from_one) simp
    with True l pos three show ?thesis
      by (simp add: speechTokensOf_def butlast_conv_take)
  next
    case False
    have "map (\<lambda>i. g ! i) [1..<length g] = tl (take (length g) g)"
      by (rule map_nth_from_one) simp
    with False l pos three show ?thesis
      by (simp add: speechTokensOf_def)
  qed
qed

lemma bind_decoder_inputs_tokens:
  assumes "bind_decoder_inputs conds dt names = Inr ins" and "TokenInput D sh \<in> set ins"
  shows "D = dt"
  using assms
proof (induction names arbitrary: ins)
  case Nil
  then show ?case by simp
next
  case (Cons name names)
  then show ?case
    by (auto split: if_splits sum.splits)
qed



lemma Generate_out_state:
  assumes "out_state (Generate rt eng toks cfg) = Some st"
  shows "\<exists>n lm te c t h ex. gen_loop n rt eng lm te c t h gen_init = (ex, st)"
  using assms unfolding Generate_def Let_def
  by (auto simp: gen_failed_def gen_threw_def
      split: if_splits option.splits prod.splits loop_exit.splits sum.splits) blast+

lemma Generate_out_decoderInputs:
  assumes "out_decoderInputs (Generate rt eng toks cfg) = Some ins"
  shows "\<exists>n lm te c t h ex st ds.
           gen_loop n rt eng lm te c t h gen_init = (ex, st)
           \<and> (ex = Next \<or> ex = StopToken)
           \<and> out_state (Generate rt eng toks cfg) = Some st
           \<and> bind_decoder_inputs (m_conds eng)
                (decoderTokensOf (m_conds eng) (generatedTokens st))
                (decoderInputNames rt ds) = Inr ins"
  using assms unfolding Generate_def Let_def
  by (auto simp: gen_failed_def gen_threw_def
      split: if_splits option.splits prod.splits loop_exit.splits sum.splits) blast+

lemma loop_inv_init: "loop_inv gen_init"
  by (simp add: loop_inv_def gen_init_def steps_ok_def)

lemma tokens_inv_init: "tokens_inv gen_init"
  by (simp add: tokens_inv_def gen_init_def START_SPEECH_TOKEN_def STOP_SPEECH_TOKEN_def)

text \<open>
  C6. In every generation call, the inputs bound for each loop step \<open>s \<ge> 1\<close> (the
  \<open>s\<close>-th entry of the record of language-model inputs, whether or not the stop token is
  then drawn) have sequence length 1 on the sequence axis of \<open>inputs_embeds\<close>, an
  attention mask one longer than that of step \<open>s - 1\<close>, as many position ids as the
  sequence length of the step, and as first position id the sum of the sequence lengths
  of all earlier steps; at most one step is bound per loop iteration.
\<close>

theorem Generate_step_inputs:
  assumes "out_state (Generate rt eng tokenIds cfg) = Some st"
    and "1 \<le> s" and "s < length (lm_trace st)"
  shows "embedsShape (lm_trace st ! s) ! 1 = 1
     \<and> seqLen (lm_trace st ! s) = 1
     \<and> length (in_attentionMask (lm_trace st ! s))
         = length (in_attentionMask (lm_trace st ! (s - 1))) + 1
     \<and> int (length (in_positionIds (lm_trace st ! s))) = seqLen (lm_trace st ! s)
     \<and> in_positionIds (lm_trace st ! s) ! 0 = sum_list (map seqLen (take s (lm_trace st)))
     \<and> s \<le> g_step st"
proof -
  obtain n lm te c t h ex where "gen_loop n rt eng lm te c t h gen_init = (ex, st)"
    using Generate_out_state [OF assms(1)] by blast
  with loop_inv_init have "steps_ok (lm_trace st) \<and> length (lm_trace st) \<le> g_step st + 1"
    by (rule gen_loop_inv)
  with assms(2,3) have "step_ok (lm_trace st) s" and "s \<le> g_step st"
    by (simp_all add: steps_ok_def)
  then show ?thesis
    by (simp add: step_ok_def)
qed

theorem Generate_step_inputs_witness:
  "\<exists>st. out_state (Generate demo_runtime ready_engine [10, 20, 30, 50256, 50256] demo_config)
          = Some st
     \<and> length (lm_trace st) = 6
     \<and> seqLen (lm_trace st ! 0) = 6
     \<and> embedsShape (lm_trace st ! 2) ! 1 = 1
     \<and> length (in_attentionMask (lm_trace st ! 2)) = 8
     \<and> length (in_attentionMask (lm_trace st ! 1)) = 7
     \<and> in_positionIds (lm_trace st ! 2) = [7]
     \<and> sum_list (map seqLen (take 2 (lm_trace st))) = 7"
proof -
  let ?st = "\<lparr>g_step = 5, generatedTokens = [6561, 100, 100, 100, 100, 100, 6562],
         currentPosition = 10, attentionMask = replicate 11 1, positionIds = [10],
         lm_trace = map demo_inputs [0, 1, 2, 3, 4, 5]\<rparr>"
  have o: "out_state (Generate demo_runtime ready_engine [10, 20, 30, 50256, 50256] demo_config)
           = Some ?st"
    by (simp add: demo_generate)
  have s: "(1::nat) \<le> 2" and l: "2 < length (lm_trace ?st)"
    by simp_all
  from Generate_step_inputs [OF o s l] o
  show ?thesis
    by (simp add: demo_inputs_def)
qed

text \<open>
  C2. Whenever a generation call hands a token sequence to the conditional decoder (so
  the loop was completed, by the stop token or by running out of steps), that sequence is
  the prompt tokens of the voice conditionals, then the generated tokens without their
  first element (the start token) and without a final stop token, then three silence
  tokens. If the generated sequence ends with the stop token drawn at step 5, the decoder
  input has \<open>|prompt_token| + 5 + 3\<close> tokens.
\<close>

theorem Generate_decoder_input:
  assumes "out_decoderInputs (Generate rt eng tokenIds cfg) = Some ins"
    and "TokenInput D sh \<in> set ins"
  shows "\<exists>st. out_state (Generate rt eng tokenIds cfg) = Some st
     \<and> generatedTokens st \<noteq> []
     \<and> hd (generatedTokens st) = START_SPEECH_TOKEN
     \<and> D = promptToken (m_conds eng)
            @ tl (if last (generatedTokens st) = STOP_SPEECH_TOKEN
                  then butlast (generatedTokens st) else generatedTokens st)
            @ [SILENCE_TOKEN, SILENCE_TOKEN, SILENCE_TOKEN]
     \<and> (last (generatedTokens st) = STOP_SPEECH_TOKEN \<and> g_step st = 5 \<longrightarrow>
          length D = length (promptToken (m_conds eng)) + 5 + 3)"
proof -
  obtain n lm te c t h ex st ds where
    loop: "gen_loop n rt eng lm te c t h gen_init = (ex, st)"
    and ex: "ex = Next \<or> ex = StopToken"
    and st: "out_state (Generate rt eng tokenIds cfg) = Some st"
    and bound: "bind_decoder_inputs (m_conds eng)
                  (decoderTokensOf (m_conds eng) (generatedTokens st))
                  (decoderInputNames rt ds) = Inr ins"
    using Generate_out_decoderInputs [OF assms(1)] by blast
  let ?g = "generatedTokens st"
  have D: "D = decoderTokensOf (m_conds eng) ?g"
    using bound assms(2) by (rule bind_decoder_inputs_tokens)
  note tok = gen_loop_tokens [OF tokens_inv_init loop]
  have ne: "?g \<noteq> []" and hd: "hd ?g = START_SPEECH_TOKEN"
    using tok ex by (auto simp: tokens_inv_def stopped_tokens_def)
  have len: "length ?g = g_step st + 2" if "last ?g = STOP_SPEECH_TOKEN"
  proof -
    have "ex \<noteq> Next"
    proof
      assume "ex = Next"
      with tok have "STOP_SPEECH_TOKEN \<notin> set ?g" and "?g \<noteq> []"
        by (simp_all add: tokens_inv_def)
      with that show False
        using last_in_set [of ?g] by simp
    qed
    with ex tok show ?thesis
      by (simp add: stopped_tokens_def)
  qed
  have eq: "D = promptToken (m_conds eng)
              @ tl (if last ?g = STOP_SPEECH_TOKEN then butlast ?g else ?g)
              @ [SILENCE_TOKEN, SILENCE_TOKEN, SILENCE_TOKEN]"
    using D speechTokensOf_eq [OF ne] by (simp add: decoderTokensOf_def)
  have "length D = length (promptToken (m_conds eng)) + 5 + 3"
    if "last ?g = STOP_SPEECH_TOKEN" and "g_step st = 5"
    using eq len [OF that(1)] that by simp
  with st ne hd eq show ?thesis
    by blast
qed

theorem Generate_decoder_input_witness:
  "out_decoderInputs (Generate demo_runtime ready_engine [10, 20, 30, 50256, 50256] demo_config)
     = Some [TokenInput [6561, 17, 4299, 100, 100, 100, 100, 100, 4299, 4299, 4299] [1, 11],
             FloatInput [0x40490FDB] [1, 1], FloatInput [0, 0] [1, 2, 1]]
   \<and> (\<exists>st. out_state (Generate demo_runtime ready_engine [10, 20, 30, 50256, 50256] demo_config)
             = Some st
         \<and> generatedTokens st = [6561, 100, 100, 100, 100, 100, 6562]
         \<and> g_step st = 5
         \<and> length [6561, 17, 4299, 100, 100, 100, 100, 100, 4299, 4299, 4299 :: i64]
             = length (promptToken (m_conds ready_engine)) + 5 + 3)"
proof -
  let ?ins = "[TokenInput [6561, 17, 4299, 100, 100, 100, 100, 100, 4299, 4299, 4299] [1, 11],
             FloatInput [0x40490FDB] [1, 1], FloatInput [0, 0] [1, 2, 1]]"
  have d: "out_decoderInputs
             (Generate demo_runtime ready_engine [10, 20, 30, 50256, 50256] demo_config)
           = Some ?ins"
    by (simp add: demo_generate)
  have m: "TokenInput [6561, 17, 4299, 100, 100, 100, 100, 100, 4299, 4299, 4299] [1, 11]
           \<in> set ?ins"
    by simp
  from Generate_decoder_input [OF d m]
  obtain st where st:
    "out_state (Generate demo_runtime ready_engine [10, 20, 30, 50256, 50256] demo_config)
     = Some st"
    by blast
  have "out_state (Generate demo_runtime ready_engine [10, 20, 30, 50256, 50256] demo_config)
        = Some \<lparr>g_step = 5, generatedTokens = [6561, 100, 100, 100, 100, 100, 6562],
             currentPosition = 10, attentionMask = replicate 11 1, positionIds = [10],
             lm_trace = map demo_inputs [0, 1, 2, 3, 4, 5]\<rparr>"
    by (simp add: demo_generate)
  with st have g: "generatedTokens st = [6561, 100, 100, 100, 100, 100, 6562]"
    and s: "g_step st = 5"
    by auto
  have p: "length (promptToken (m_conds ready_engine)) = 3"
    by (simp add: ready_engine_def full_vcr_def)
  have "length [6561, 17, 4299, 100, 100, 100, 100, 100, 4299, 4299, 4299 :: i64]
        = length (promptToken (m_conds ready_engine)) + 5 + 3"
    by (simp add: p)
  with d st g s show ?thesis
    by blast
qed

end
